theory Spec2Isabelle
  imports Main
begin

section \<open>Subscription store (sentry/models/groupsubscription.py)\<close>

text \<open>
  Identifiers are Python integers. A \<open>Group\<close> carries its id and the id of its
  project (\<open>group.project\<close>); a \<open>User\<close> carries the two columns this code reads.
\<close>

record Group =
  g_id :: int
  g_project :: int

record User =
  u_id :: int
  u_is_active :: bool

text \<open>
  \<open>class GroupSubscriptionReason\<close>: integer constants. The three negative ones are
  documented as never persisted.
\<close>

definition implicit :: int where "implicit = - 1"
definition committed :: int where "committed = - 2"
definition processing_issue :: int where "processing_issue = - 3"
definition unknown :: int where "unknown = 0"
definition comment :: int where "comment = 1"
definition assigned :: int where "assigned = 2"
definition bookmark :: int where "bookmark = 3"
definition status_change :: int where "status_change = 4"
definition deploy_setting :: int where "deploy_setting = 5"
definition mentioned :: int where "mentioned = 6"
definition team_mentioned :: int where "team_mentioned = 7"

text \<open>
  \<open>class GroupSubscription(Model)\<close>: one row of \<open>sentry_groupsubscription\<close>
  (\<open>date_added\<close> is never read here and is left out). The table is the list of its
  rows in insertion order.
\<close>

record GroupSubscription =
  project_id :: int
  group_id :: int
  user_id :: int
  is_active :: bool
  reason :: int

type_synonym table = "GroupSubscription list"

datatype error = IntegrityError | NotImplementedError | ValueError | StopIteration | DeliveryError

text \<open>What a Python call hands back when it returns: \<open>None\<close> or \<open>True\<close>.\<close>

datatype pyret = PyNone | PyTrue

text \<open>
  \<open>unique_together = (("group", "user"),)\<close>: the storage layer refuses a row whose
  (group, user) pair is already present.
\<close>

definition same_key :: "GroupSubscription \<Rightarrow> GroupSubscription \<Rightarrow> bool" where
  "same_key r s \<longleftrightarrow> group_id r = group_id s \<and> user_id r = user_id s"

definition unique_together :: "table \<Rightarrow> bool" where
  "unique_together tbl \<longleftrightarrow> distinct (map (\<lambda>r. (group_id r, user_id r)) tbl)"

text \<open>\<open>self.create(...)\<close>: insert one row, or raise \<open>IntegrityError\<close>.\<close>

definition create :: "table \<Rightarrow> GroupSubscription \<Rightarrow> error + table" where
  "create tbl row = (if list_ex (same_key row) tbl then Inl IntegrityError else Inr (tbl @ [row]))"

text \<open>
  \<open>self.bulk_create(subscriptions)\<close> inside \<open>transaction.atomic()\<close>: the rows go in
  one by one; the first refused row raises, and the caller keeps the table it had
  (the transaction is rolled back).
\<close>

fun bulk_create :: "table \<Rightarrow> GroupSubscription list \<Rightarrow> error + table" where
  "bulk_create tbl [] = Inr tbl"
| "bulk_create tbl (r # rs) =
     (case create tbl r of Inl e \<Rightarrow> Inl e | Inr tbl' \<Rightarrow> bulk_create tbl' rs)"

text \<open>
  \<^verbatim>\<open>
  def subscribe(self, group, user, reason=GroupSubscriptionReason.unknown):
      try:
          with transaction.atomic():
              self.create(user=user, group=group, project=group.project,
                          is_active=True, reason=reason)
      except IntegrityError:
          pass
  \<close>
  The result pairs what the caller sees (an error, or the returned \<open>None\<close>) with the
  table afterwards. Only \<open>IntegrityError\<close> is caught; any other error is passed on.
\<close>

definition subscribe :: "table \<Rightarrow> Group \<Rightarrow> User \<Rightarrow> int \<Rightarrow> (error + pyret) \<times> table" where
  "subscribe tbl grp user rsn =
     (case create tbl \<lparr>project_id = g_project grp, group_id = g_id grp,
                       user_id = u_id user, is_active = True, reason = rsn\<rparr> of
        Inr tbl' \<Rightarrow> (Inr PyNone, tbl')
      | Inl IntegrityError \<Rightarrow> (Inr PyNone, tbl)
      | Inl e \<Rightarrow> (Inl e, tbl))"

text \<open>
  Rows that concurrent writers commit while \<open>bulk_subscribe\<close> runs. The storage layer
  holds them to the same uniqueness constraint: a row whose key is taken is not stored.
\<close>

definition concurrent_insert :: "table \<Rightarrow> GroupSubscription list \<Rightarrow> table" where
  "concurrent_insert tbl rows =
     fold (\<lambda>r t. case create t r of Inr t' \<Rightarrow> t' | Inl _ \<Rightarrow> t) rows tbl"

text \<open>
  One pass of the loop body of \<open>bulk_subscribe\<close>, as the log keeps it: the value of
  \<open>i\<close>, the table the query ran on, the user ids the query returned, the rows handed
  to \<open>bulk_create\<close>, and whether \<open>bulk_create\<close> raised.
\<close>

record attempt =
  att_i :: int
  att_table :: table
  existing_subscriptions :: "int list"
  subscriptions :: "GroupSubscription list"
  conflict :: bool

text \<open>
  \<^verbatim>\<open>
  existing_subscriptions = set(GroupSubscription.objects.filter(
      user_id__in=user_ids, group=group, project=group.project
  ).values_list("user_id", flat=True))
  \<close>
\<close>

definition query_existing :: "table \<Rightarrow> Group \<Rightarrow> int list \<Rightarrow> int list" where
  "query_existing tbl grp user_ids =
     remdups (map user_id (filter (\<lambda>r. user_id r \<in> set user_ids \<and> group_id r = g_id grp
                                        \<and> project_id r = g_project grp) tbl))"

definition new_subscriptions :: "Group \<Rightarrow> int list \<Rightarrow> int \<Rightarrow> int list \<Rightarrow> GroupSubscription list" where
  "new_subscriptions grp user_ids rsn existing =
     map (\<lambda>u. \<lparr>project_id = g_project grp, group_id = g_id grp, user_id = u,
               is_active = True, reason = rsn\<rparr>)
         (filter (\<lambda>u. u \<notin> set existing) user_ids)"

text \<open>
  \<^verbatim>\<open>
  for i in range(4, -1, -1):  # 4 3 2 1 0
      existing_subscriptions = set(...)
      subscriptions = [GroupSubscription(...) for user_id in user_ids
                       if user_id not in existing_subscriptions]
      try:
          with transaction.atomic():
              self.bulk_create(subscriptions)
              return True
      except IntegrityError as e:
          if i == 0:
              raise e
  \<close>
  The first argument is the list of values \<open>i\<close> still has to take. The second is the
  environment: its k-th element holds the rows other writers commit between the query
  and the insert of the k-th pass (none once the list is used up). Rows committed
  between a refused insert and the next query are covered by it as well: the refused
  insert left the table as it was, and more rows never turn a refusal into a success.
  A loop that runs out of values falls off the end of the function: Python returns
  \<open>None\<close>.
\<close>

fun bulk_subscribe_loop ::
  "int list \<Rightarrow> GroupSubscription list list \<Rightarrow> table \<Rightarrow> Group \<Rightarrow> int list \<Rightarrow> int
     \<Rightarrow> (error + pyret) \<times> table \<times> attempt list" where
  "bulk_subscribe_loop [] env tbl grp user_ids rsn = (Inr PyNone, tbl, [])"
| "bulk_subscribe_loop (i # is) env tbl grp user_ids rsn =
     (let existing = query_existing tbl grp user_ids;
          subs = new_subscriptions grp user_ids rsn existing;
          tbl1 = concurrent_insert tbl (case env of [] \<Rightarrow> [] | e # _ \<Rightarrow> e);
          att = \<lparr>att_i = i, att_table = tbl, existing_subscriptions = existing,
                 subscriptions = subs, conflict = False\<rparr>
      in case bulk_create tbl1 subs of
           Inr tbl2 \<Rightarrow> (Inr PyTrue, tbl2, [att])
         | Inl IntegrityError \<Rightarrow>
             if i = 0 then (Inl IntegrityError, tbl1, [att\<lparr>conflict := True\<rparr>])
             else (case bulk_subscribe_loop is (tl env) tbl1 grp user_ids rsn of
                     (res, tbl', log) \<Rightarrow> (res, tbl', att\<lparr>conflict := True\<rparr> # log))
         | Inl e \<Rightarrow> (Inl e, tbl1, [att\<lparr>conflict := True\<rparr>]))"

text \<open>
  What a call of \<open>bulk_subscribe\<close> meets and does not control: the rows other writers
  commit during each pass, and the order in which the interpreter iterates over the set
  \<open>set(user_ids)\<close>. The order is given as a rank: the members of the set come by
  increasing rank (any order of a set is of this form).
\<close>

record environment =
  env_rows :: "GroupSubscription list list"
  env_set_rank :: "int list \<Rightarrow> int \<Rightarrow> int"

text \<open>\<open>user_ids = set(user_ids)\<close>, then the loop over \<open>range(4, -1, -1)\<close>.\<close>

definition set_iteration :: "environment \<Rightarrow> int list \<Rightarrow> int list" where
  "set_iteration env user_ids = sort_key (env_set_rank env user_ids) (remdups user_ids)"

definition bulk_subscribe ::
  "environment \<Rightarrow> table \<Rightarrow> Group \<Rightarrow> int list \<Rightarrow> int
     \<Rightarrow> (error + pyret) \<times> table \<times> attempt list" where
  "bulk_subscribe env tbl grp user_ids rsn =
     bulk_subscribe_loop [4, 3, 2, 1, 0] (env_rows env) tbl grp (set_iteration env user_ids) rsn"

text \<open>
  \<^verbatim>\<open>
  def subscribe_actor(self, group, actor, reason=GroupSubscriptionReason.unknown):
      if isinstance(actor, User):
          return self.subscribe(group, actor, reason)
      if isinstance(actor, Team):
          team_users_ids = list(actor.member_set.values_list("user_id", flat=True))
          return self.bulk_subscribe(group, team_users_ids, reason)
      raise NotImplementedError("Unknown actor type: %r" % type(actor))
  \<close>
  An actor is a \<open>User\<close>, a \<open>Team\<close> (here: its id and the user ids of its
  \<open>member_set\<close>), or an object of any other class.
\<close>

record Team =
  t_id :: int
  t_member_user_ids :: "int list"

datatype actor = UserActor User | TeamActor Team | OtherActor

fun subscribe_actor ::
  "environment \<Rightarrow> table \<Rightarrow> Group \<Rightarrow> actor \<Rightarrow> int \<Rightarrow> (error + pyret) \<times> table" where
  "subscribe_actor env tbl grp (UserActor user) rsn = subscribe tbl grp user rsn"
| "subscribe_actor env tbl grp (TeamActor team) rsn =
     (case bulk_subscribe env tbl grp (t_member_user_ids team) rsn of
        (res, tbl', log) \<Rightarrow> (res, tbl'))"
| "subscribe_actor env tbl grp OtherActor rsn = (Inl NotImplementedError, tbl)"

text \<open>
  Vocabulary for statements about the log of \<open>bulk_subscribe\<close>: the rows the
  environment commits during pass \<open>k\<close>; the log entry the first pass of the loop
  writes; and what it means for a log entry to be a pass of the loop body under that
  environment.
\<close>

definition env_at :: "'a list list \<Rightarrow> nat \<Rightarrow> 'a list" where
  "env_at env k = (if k < length env then env ! k else [])"

definition first_pass ::
  "int \<Rightarrow> GroupSubscription list list \<Rightarrow> table \<Rightarrow> Group \<Rightarrow> int list \<Rightarrow> int \<Rightarrow> attempt" where
  "first_pass i env tbl grp user_ids rsn =
     \<lparr>att_i = i, att_table = tbl,
      existing_subscriptions = query_existing tbl grp user_ids,
      subscriptions = new_subscriptions grp user_ids rsn (query_existing tbl grp user_ids),
      conflict = isl (bulk_create (concurrent_insert tbl (env_at env 0))
                        (new_subscriptions grp user_ids rsn (query_existing tbl grp user_ids)))\<rparr>"

definition pass_ok :: "GroupSubscription list list \<Rightarrow> Group \<Rightarrow> int list \<Rightarrow> int \<Rightarrow> nat \<Rightarrow> attempt \<Rightarrow> bool" where
  "pass_ok env grp user_ids rsn k a \<longleftrightarrow>
     existing_subscriptions a = query_existing (att_table a) grp user_ids \<and>
     subscriptions a = new_subscriptions grp user_ids rsn (existing_subscriptions a) \<and>
     conflict a = isl (bulk_create (concurrent_insert (att_table a) (env_at env k)) (subscriptions a))"

definition rows_for :: "table \<Rightarrow> Group \<Rightarrow> User \<Rightarrow> GroupSubscription list" where
  "rows_for tbl grp user =
     filter (\<lambda>r. group_id r = g_id grp \<and> user_id r = u_id user) tbl"

section \<open>Participant resolver (GroupSubscriptionManager.get_participants)\<close>

text \<open>
  Modelled from the spec: the notification-setting vocabulary of
  \<open>sentry.notifications.types\<close>, which is not among the source files. A preference
  value is one of the enum "default, never, always, ..." (any further value is
  \<open>OtherValue\<close>); a preference is stored at project, organization or default scope.
\<close>

datatype NotificationSettingOptionValues = DEFAULT | NEVER | ALWAYS | OtherValue nat

datatype NotificationScopeType = DEFAULT_SCOPE | ORGANIZATION | PROJECT

text \<open>
  One user's settings for one notification type, as the dictionary from scope to value
  that \<open>transform_to_notification_settings_by_user\<close> builds (keys are unique).
\<close>

type_synonym settings = "(NotificationScopeType \<times> NotificationSettingOptionValues) list"

text \<open>
  Modelled from the spec: the resolution of a user's preference, part of
  \<open>sentry.notifications.helpers\<close>, which is not among the source files: "merge each
  user's notification-setting preference [...] at project/organization/default scope
  (most specific scope wins)"; a user with no stored preference has the default value.
\<close>

definition resolved_setting :: "settings option \<Rightarrow> NotificationSettingOptionValues" where
  "resolved_setting st =
     (case st of
        None \<Rightarrow> DEFAULT
      | Some d \<Rightarrow>
          (case map_of d PROJECT of
             Some v \<Rightarrow> v
           | None \<Rightarrow>
               (case map_of d ORGANIZATION of
                  Some v \<Rightarrow> v
                | None \<Rightarrow> (case map_of d DEFAULT_SCOPE of Some v \<Rightarrow> v | None \<Rightarrow> DEFAULT))))"

text \<open>
  Modelled from the spec: \<open>should_be_participating\<close> of
  \<open>sentry.notifications.helpers\<close>, which is not among the source files: "a user
  participates if (a) they have an active explicit subscription AND their resolved
  setting is not never, OR (b) they have no explicit subscription AND their resolved
  setting is always". The arguments are the ones \<open>get_participants\<close> passes.
\<close>

definition should_be_participating ::
  "User \<Rightarrow> (int \<rightharpoonup> GroupSubscription) \<Rightarrow> (User \<Rightarrow> settings option) \<Rightarrow> bool" where
  "should_be_participating user subscriptions_by_user_id notification_settings_by_user =
     (let v = resolved_setting (notification_settings_by_user user) in
      case subscriptions_by_user_id (u_id user) of
        Some subscription \<Rightarrow> is_active subscription \<and> v \<noteq> NEVER
      | None \<Rightarrow> v = ALWAYS)"

text \<open>
  \<^verbatim>\<open>
  def get_participants(self, group):
      users = User.objects.get_from_group(group)
      user_ids = [user.id for user in users]
      subscriptions = self.filter(group=group, user_id__in=user_ids)
      notification_settings = NotificationSetting.objects.get_for_users_by_parent(
          ExternalProviders.EMAIL, NotificationSettingTypes.WORKFLOW,
          users=users, parent=group.project)
      subscriptions_by_user_id = {
          subscription.user_id: subscription for subscription in subscriptions}
      notification_settings_by_user = transform_to_notification_settings_by_user(
          notification_settings, users)
      return {
          user: getattr(subscriptions_by_user_id.get(user.id), "reason",
                        GroupSubscriptionReason.implicit)
          for user in users
          if should_be_participating(
              user, subscriptions_by_user_id, notification_settings_by_user)
      }
  \<close>
  The members of the issue's project (\<open>User.objects.get_from_group(group)\<close>) and the
  dictionary of their workflow settings for the project come from collaborators outside
  these files and are arguments. A dictionary comprehension keeps the last value written
  under a key.
\<close>

definition get_participants ::
  "table \<Rightarrow> User list \<Rightarrow> (User \<Rightarrow> settings option) \<Rightarrow> Group \<Rightarrow> (User \<rightharpoonup> int)" where
  "get_participants tbl users notification_settings_by_user grp =
     (let user_ids = map u_id users;
          subscriptions = filter (\<lambda>s. group_id s = g_id grp \<and> user_id s \<in> set user_ids) tbl;
          subscriptions_by_user_id = fold (\<lambda>s m. m(user_id s \<mapsto> s)) subscriptions Map.empty
      in fold (\<lambda>user m.
                 if should_be_participating user subscriptions_by_user_id notification_settings_by_user
                 then m(user \<mapsto> (case subscriptions_by_user_id (u_id user) of
                                      Some subscription \<Rightarrow> reason subscription
                                    | None \<Rightarrow> implicit))
                 else m)
           users Map.empty)"

section \<open>Mail adapter (sentry/mail/adapter.py)\<close>

datatype ActionTargetType = ISSUE_OWNERS | TEAM | MEMBER

record Project =
  p_id :: int

record Rule =
  rule_id :: int

text \<open>
  An event: its id, its issue, the time it was seen (only the order of timestamps is
  used) and its payload \<open>event.data\<close>, which only the ownership rules read.
\<close>

record Event =
  event_id :: int
  e_group :: Group
  e_timestamp :: int
  e_data :: int

record Notification =
  n_event :: Event
  n_rules :: "Rule list"

text \<open>\<open>future.rule\<close> and \<open>future.kwargs\<close> (a dictionary, here its items).\<close>

record Future =
  future_rule :: Rule
  future_kwargs :: "(string \<times> string) list"

text \<open>
  The result of \<open>ProjectOwnership.get_owners\<close>: the sentinel \<open>Everyone\<close>, or a list
  of owners, each with an id and a type that is the class \<open>User\<close> or the class
  \<open>Team\<close>.
\<close>

datatype owner_type = UserType | TeamType

record Owner =
  owner_id :: int
  owner_type :: owner_type

datatype owners = Everyone | Owners "Owner list"

text \<open>
  A digest maps each rule to a dictionary from issue to the records of that issue, both
  in insertion order. A record carries a timestamp and, as its value, an event with the
  rules it matched.
\<close>

record Record =
  rec_timestamp :: int
  rec_event :: Event
  rec_rules :: "Rule list"

type_synonym digest = "(Rule \<times> (Group \<times> Record list) list) list"

text \<open>
  Modelled from the spec: \<open>unsplit_key\<close> of \<open>sentry.digests.notifications\<close>, which
  is not among the source files: the digest key is the "derived identity =
  (project_id, target_type, target_identifier)".
\<close>

datatype digest_key = DigestKey int ActionTargetType "int option"

definition unsplit_key :: "Project \<Rightarrow> ActionTargetType \<Rightarrow> int option \<Rightarrow> digest_key" where
  "unsplit_key project target_type target_identifier =
     DigestKey (p_id project) target_type target_identifier"

text \<open>
  Modelled from the spec: \<open>event_to_record\<close> of \<open>sentry.digests.notifications\<close>,
  which is not among the source files: "records carry (timestamp, event, matched
  rules)".
\<close>

definition event_to_record :: "Event \<Rightarrow> Rule list \<Rightarrow> Record" where
  "event_to_record event rules =
     \<lparr>rec_timestamp = e_timestamp event, rec_event = event, rec_rules = rules\<rparr>"

text \<open>
  What the adapter reads from its collaborators, none of which is among the source
  files: the user table; the rows that put a user's organization membership into a team
  (as pairs of user id and team id) and a team into a project (team id, project id);
  the user ids of \<open>team.member_set\<close> and \<open>project.member_set\<close>; the ownership rule
  evaluator; \<open>NotificationSetting.objects.get_notification_recipients\<close> for the email
  channel; the issue-alert settings of a project's users, as the dictionary that
  \<open>transform_to_notification_settings_by_user\<close> returns; whether digests are enabled
  for a project and the two delay options; what \<open>digests.add\<close> answers; the
  personalized digests; whether the mail transport raises on a message; and the order
  in which the interpreter iterates over a set of user ids, given as a rank: the members
  of the set come by increasing rank (any order of a set is of this form).
\<close>

datatype message = ErrorMail int Event "Rule list" | DigestMail int digest

record db =
  db_users :: "User list"
  db_organizationmemberteam :: "(int \<times> int) list"
  db_projectteam :: "(int \<times> int) list"
  db_team_member_set :: "int \<Rightarrow> int list"
  db_project_member_set :: "int \<Rightarrow> int list"
  db_get_owners :: "int \<Rightarrow> int \<Rightarrow> owners"
  db_get_notification_recipients :: "int \<Rightarrow> User list"
  db_issue_alert_settings :: "int \<Rightarrow> User \<Rightarrow> settings option"
  db_digests_enabled :: "int \<Rightarrow> bool"
  db_increment_delay :: "int \<Rightarrow> int"
  db_maximum_delay :: "int \<Rightarrow> int"
  db_digests_add :: "digest_key \<Rightarrow> Record \<Rightarrow> bool"
  db_get_personalized_digests :: "ActionTargetType \<Rightarrow> int \<Rightarrow> digest \<Rightarrow> int list \<Rightarrow> (int \<times> digest) list"
  db_send_raises :: "message \<Rightarrow> bool"
  db_iter_rank :: "int list \<Rightarrow> int \<Rightarrow> int"

text \<open>
  What the adapter does to the outside: it hands a message to the transport, appends a
  record to a digest, or queues the delivery of a digest. Metrics and log lines are left
  out.
\<close>

datatype effect =
  SendMail message
| DigestsAdd digest_key Record int int
| DeliverDigestDelay digest_key

text \<open>
  The cache, read and written under the key \<open>mail:send_to:{project.pk}\<close>: here a map
  from the project's key to the cached list. An expired entry is an absent entry.
\<close>

type_synonym cache = "int \<rightharpoonup> int list"

text \<open>
  A Python set of ids is a list without duplicates that enumerates it; the order of the
  list means nothing. Where the code iterates over such a set, the model takes its
  members by increasing rank.
\<close>

definition set_minus :: "int list \<Rightarrow> int list \<Rightarrow> int list" where
  "set_minus xs ys = filter (\<lambda>x. x \<notin> set ys) (remdups xs)"

definition iter_order :: "db \<Rightarrow> int list \<Rightarrow> int list" where
  "iter_order d xs = sort_key (db_iter_rank d xs) xs"

text \<open>
  \<^verbatim>\<open>
  def get_sendable_user_objects(project):
      return NotificationSetting.objects.get_notification_recipients(
          ExternalProviders.EMAIL, project)
  \<close>
\<close>

definition get_sendable_user_objects :: "db \<Rightarrow> Project \<Rightarrow> User list" where
  "get_sendable_user_objects d project = db_get_notification_recipients d (p_id project)"

text \<open>
  What \<open>should_notify\<close> returns: \<open>True\<close>, or (from \<open>or\<close>) its second operand, the
  collection of users. A collection is truthy when it is not empty.
\<close>

datatype notify_value = PyBool bool | PyUsers "User list"

fun truthy :: "notify_value \<Rightarrow> bool" where
  "truthy (PyBool b) = b"
| "truthy (PyUsers us) = (us \<noteq> [])"

text \<open>
  \<^verbatim>\<open>
  def should_notify(self, target_type, group):
      return target_type == ActionTargetType.MEMBER or self.get_sendable_user_objects(
          group.project)
  \<close>
\<close>

definition should_notify :: "db \<Rightarrow> ActionTargetType \<Rightarrow> Group \<Rightarrow> notify_value" where
  "should_notify d target_type grp =
     (if target_type = MEMBER then PyBool True
      else PyUsers (get_sendable_user_objects d \<lparr>p_id = g_project grp\<rparr>))"

text \<open>
  \<^verbatim>\<open>
  def get_send_to_all_in_project(self, project):
      cache_key = f"mail:send_to:{project.pk}"
      send_to_list = cache.get(cache_key)
      if send_to_list is None:
          users = self.get_sendable_user_objects(project)
          send_to_list = [user.id for user in users if user]
          cache.set(cache_key, send_to_list, 60)  # 1 minute cache
      return send_to_list
  \<close>
  A user object is truthy, so \<open>if user\<close> keeps every user.
\<close>

definition get_send_to_all_in_project :: "cache \<Rightarrow> db \<Rightarrow> Project \<Rightarrow> int list \<times> cache" where
  "get_send_to_all_in_project c d project =
     (case c (p_id project) of
        Some send_to_list \<Rightarrow> (send_to_list, c)
      | None \<Rightarrow>
          (let send_to_list = map u_id (get_sendable_user_objects d project)
           in (send_to_list, c(p_id project \<mapsto> send_to_list))))"

text \<open>
  \<^verbatim>\<open>
  def disabled_users_from_project(project):
      user_ids = project.member_set.values_list("user", flat=True)
      users = User.objects.filter(id__in=user_ids)
      notification_settings = NotificationSetting.objects.get_for_users_by_parent(
          provider=ExternalProviders.EMAIL, type=NotificationSettingTypes.ISSUE_ALERTS,
          parent=project, users=users)
      notification_settings_by_user = transform_to_notification_settings_by_user(
          notification_settings, users)
      output = set()
      for user in users:
          settings = notification_settings_by_user.get(user)
          if settings:
              setting = settings.get(NotificationScopeType.PROJECT)
              if setting == NotificationSettingOptionValues.NEVER:
                  output.add(user.id)
      return output
  \<close>
\<close>

definition disabled_users_from_project :: "db \<Rightarrow> Project \<Rightarrow> int list" where
  "disabled_users_from_project d project =
     (let user_ids = db_project_member_set d (p_id project);
          users = filter (\<lambda>u. u_id u \<in> set user_ids) (db_users d);
          notification_settings_by_user = db_issue_alert_settings d (p_id project)
      in remdups (map u_id (filter
           (\<lambda>user. case notification_settings_by_user user of
                      None \<Rightarrow> False
                    | Some st \<Rightarrow> st \<noteq> [] \<and> map_of st PROJECT = Some NEVER)
           users)))"

text \<open>
  \<^verbatim>\<open>
  def get_send_to_owners(self, event, project):
      owners, _ = ProjectOwnership.get_owners(project.id, event.data)
      if owners != ProjectOwnership.Everyone:
          if not owners:
              return set()
          send_to = set()
          teams_to_resolve = set()
          for owner in owners:
              if owner.type == User:
                  send_to.add(owner.id)
              else:
                  teams_to_resolve.add(owner.id)
          if teams_to_resolve:
              send_to |= set(User.objects.filter(
                  is_active=True,
                  sentry_orgmember_set__organizationmemberteam__team__id__in=teams_to_resolve,
              ).values_list("id", flat=True))
          return send_to - self.disabled_users_from_project(project)
      else:
          return self.get_send_to_all_in_project(project)
  \<close>
\<close>

definition users_in_teams :: "db \<Rightarrow> int list \<Rightarrow> int list" where
  "users_in_teams d teams_to_resolve =
     map u_id (filter
       (\<lambda>u. u_is_active u \<and>
            list_ex (\<lambda>(uid, tid). uid = u_id u \<and> tid \<in> set teams_to_resolve)
              (db_organizationmemberteam d))
       (db_users d))"

definition get_send_to_owners :: "cache \<Rightarrow> db \<Rightarrow> Event \<Rightarrow> Project \<Rightarrow> int list \<times> cache" where
  "get_send_to_owners c d event project =
     (case db_get_owners d (p_id project) (e_data event) of
        Everyone \<Rightarrow> get_send_to_all_in_project c d project
      | Owners os \<Rightarrow>
          if os = [] then ([], c)
          else
            (let send_to = map owner_id (filter (\<lambda>owner. owner_type owner = UserType) os);
                 teams_to_resolve = map owner_id (filter (\<lambda>owner. owner_type owner \<noteq> UserType) os);
                 send_to = (if teams_to_resolve \<noteq> [] then send_to @ users_in_teams d teams_to_resolve
                            else send_to)
             in (set_minus send_to (disabled_users_from_project d project), c)))"

text \<open>
  \<^verbatim>\<open>
  def get_send_to_team(self, project, target_identifier):
      if target_identifier is None:
          return []
      try:
          team = Team.objects.get(id=int(target_identifier), projectteam__project=project)
      except Team.DoesNotExist:
          return set()
      return set(team.member_set.values_list("user_id", flat=True)
                 ) - self.disabled_users_from_project(project)
  \<close>
  The target identifier is an integer or the decimal text of one, so
  \<open>int(target_identifier)\<close> is that integer.
\<close>

definition get_send_to_team :: "db \<Rightarrow> Project \<Rightarrow> int option \<Rightarrow> int list" where
  "get_send_to_team d project target_identifier =
     (case target_identifier of
        None \<Rightarrow> []
      | Some ti \<Rightarrow>
          if (ti, p_id project) \<in> set (db_projectteam d)
          then set_minus (db_team_member_set d ti) (disabled_users_from_project d project)
          else [])"

text \<open>
  \<^verbatim>\<open>
  def get_send_to_member(self, project, target_identifier):
      """
      No checking for disabled users is done. If a user explicitly specifies a member
      as a target to send to, it should overwrite the user's personal mail settings.
      """
      if target_identifier is None:
          return []
      try:
          user = (User.objects.filter(
                      id=int(target_identifier),
                      sentry_orgmember_set__teams__projectteam__project=project,
                  ).distinct().get())
      except User.DoesNotExist:
          return set()
      return {user.id}
  \<close>
  The id is the primary key of the user table, so after \<open>distinct()\<close> the query holds
  at most one user.
\<close>

definition in_project_team :: "db \<Rightarrow> Project \<Rightarrow> int \<Rightarrow> bool" where
  "in_project_team d project uid \<longleftrightarrow>
     list_ex (\<lambda>(u, tid). u = uid \<and> (tid, p_id project) \<in> set (db_projectteam d))
       (db_organizationmemberteam d)"

definition get_send_to_member :: "db \<Rightarrow> Project \<Rightarrow> int option \<Rightarrow> int list" where
  "get_send_to_member d project target_identifier =
     (case target_identifier of
        None \<Rightarrow> []
      | Some ti \<Rightarrow>
          (case filter (\<lambda>u. u_id u = ti \<and> in_project_team d project (u_id u)) (db_users d) of
             [] \<Rightarrow> []
           | user # _ \<Rightarrow> [u_id user]))"

text \<open>
  \<^verbatim>\<open>
  def get_send_to(self, project, target_type, target_identifier=None, event=None):
      if not (project and project.teams.exists()):
          return set()
      send_to = []
      if target_type == ActionTargetType.ISSUE_OWNERS:
          if not event:
              send_to = self.get_send_to_all_in_project(project)
          else:
              send_to = self.get_send_to_owners(event, project)
      elif target_type == ActionTargetType.MEMBER:
          send_to = self.get_send_to_member(project, target_identifier)
      elif target_type == ActionTargetType.TEAM:
          send_to = self.get_send_to_team(project, target_identifier)
      return set(send_to)
  \<close>
\<close>

definition teams_exists :: "db \<Rightarrow> Project \<Rightarrow> bool" where
  "teams_exists d project \<longleftrightarrow> list_ex (\<lambda>(tid, pid). pid = p_id project) (db_projectteam d)"

definition get_send_to ::
  "cache \<Rightarrow> db \<Rightarrow> Project option \<Rightarrow> ActionTargetType \<Rightarrow> int option \<Rightarrow> Event option
     \<Rightarrow> int list \<times> cache" where
  "get_send_to c d project_opt target_type target_identifier event_opt =
     (case project_opt of
        None \<Rightarrow> ([], c)
      | Some project \<Rightarrow>
          if \<not> teams_exists d project then ([], c)
          else
            (case (case target_type of
                     ISSUE_OWNERS \<Rightarrow>
                       (case event_opt of
                          None \<Rightarrow> get_send_to_all_in_project c d project
                        | Some event \<Rightarrow> get_send_to_owners c d event project)
                   | MEMBER \<Rightarrow> (get_send_to_member d project target_identifier, c)
                   | TEAM \<Rightarrow> (get_send_to_team d project target_identifier, c)) of
               (send_to, c') \<Rightarrow> (remdups send_to, c')))"

text \<open>
  \<open>_send_mail\<close> with \<open>send_to=[user_id]\<close>: the recipient list is not empty, so the
  message is built and handed to the transport (\<open>message.send_async()\<close>), which may
  raise. Nothing around the call catches what it raises.
\<close>

definition send_mail :: "db \<Rightarrow> message \<Rightarrow> (error + pyret) \<times> effect list" where
  "send_mail d m = (if db_send_raises d m then Inl DeliveryError else Inr PyNone, [SendMail m])"

text \<open>
  \<^verbatim>\<open>
  for user_id in self.get_send_to(project=project, target_type=target_type,
                                  target_identifier=target_identifier, event=event):
      self.add_unsubscribe_link(context, user_id, project, "alert_email")
      self._send_mail(subject=subject, template=template, html_template=html_template,
                      project=project, reference=group, headers=headers,
                      type="notify.error", context=context, send_to=[user_id])
  \<close>
\<close>

fun notify_loop :: "db \<Rightarrow> Notification \<Rightarrow> int list \<Rightarrow> (error + pyret) \<times> effect list" where
  "notify_loop d notification [] = (Inr PyNone, [])"
| "notify_loop d notification (uid # rest) =
     (case send_mail d (ErrorMail uid (n_event notification) (n_rules notification)) of
        (Inl e, effs) \<Rightarrow> (Inl e, effs)
      | (Inr _, effs) \<Rightarrow>
          (case notify_loop d notification rest of (res, effs') \<Rightarrow> (res, effs @ effs')))"

text \<open>
  \<open>notify\<close>: the subject, links, commits and headers it computes before the loop go
  into the rendering only; the recipients come from \<open>get_send_to\<close> with the event, and
  the loop takes them in the iteration order of that set.
\<close>

definition notify ::
  "cache \<Rightarrow> db \<Rightarrow> Notification \<Rightarrow> ActionTargetType \<Rightarrow> int option
     \<Rightarrow> (error + pyret) \<times> effect list \<times> cache" where
  "notify c d notification target_type target_identifier =
     (let event = n_event notification;
          project = \<lparr>p_id = g_project (e_group event)\<rparr>
      in case get_send_to c d (Some project) target_type target_identifier (Some event) of
           (send_to, c') \<Rightarrow>
             (case notify_loop d notification (iter_order d send_to) of
                (res, effs) \<Rightarrow> (res, effs, c')))"

text \<open>
  Modelled from the spec: \<open>get_digest_metadata\<close> of \<open>sentry.digests.utilities\<close>,
  which is not among the source files: "start/end are min/max timestamps across all
  records; counts tally occurrences per issue across all rules". The counts are a
  dictionary from issue to number, in the order the issues are first met.
\<close>

definition digest_records :: "digest \<Rightarrow> (Group \<times> Record) list" where
  "digest_records dg =
     concat (map (\<lambda>(rule, groups). concat (map (\<lambda>(g, records). map (Pair g) records) groups)) dg)"

definition get_digest_metadata :: "digest \<Rightarrow> int option \<times> int option \<times> (Group \<times> nat) list" where
  "get_digest_metadata dg =
     (let recs = digest_records dg;
          times = map (rec_timestamp \<circ> snd) recs
      in (if times = [] then None else Some (Min (set times)),
          if times = [] then None else Some (Max (set times)),
          map (\<lambda>g. (g, length (filter (\<lambda>(g', r). g' = g) recs))) (remdups (map fst recs))))"

text \<open>
  \<open>max(iterable, key=...)\<close>: the first element with the largest key; \<open>ValueError\<close> on
  an empty iterable.
\<close>

fun max_by_timestamp :: "Record list \<Rightarrow> error + Record" where
  "max_by_timestamp [] = Inl ValueError"
| "max_by_timestamp (r # rs) =
     Inr (fold (\<lambda>x best. if rec_timestamp best < rec_timestamp x then x else best) rs r)"

text \<open>
  \<open>itertools.chain.from_iterable(groups.get(group, []) for groups in digest.values())\<close>
\<close>

definition records_of_group :: "digest \<Rightarrow> Group \<Rightarrow> Record list" where
  "records_of_group dg grp =
     concat (map (\<lambda>(rule, groups). case map_of groups grp of None \<Rightarrow> [] | Some rs \<Rightarrow> rs) dg)"

text \<open>
  \<^verbatim>\<open>
  for user_id, digest in get_personalized_digests(target_type, project.id, digest, user_ids):
      start, end, counts = get_digest_metadata(digest)
      if len(counts) == 1:
          group = next(iter(counts))
          record = max(
              itertools.chain.from_iterable(
                  groups.get(group, []) for groups in digest.values()),
              key=lambda record: record.timestamp)
          notification = Notification(record.value.event, rules=record.value.rules)
          return self.notify(notification, target_type, target_identifier)
      context = {...}
      headers = {...}
      group = next(iter(counts))
      subject = self.get_digest_subject(group, counts, start)
      self.add_unsubscribe_link(context, user_id, project, "alert_digest")
      self._send_mail(subject=subject, template="sentry/emails/digests/body.txt", ...,
                      type="notify.digest", context=context, send_to=[user_id])
  \<close>
  On a digest without any issue, \<open>next(iter(counts))\<close> raises \<open>StopIteration\<close> before a
  mail is built.
\<close>

fun notify_digest_loop ::
  "cache \<Rightarrow> db \<Rightarrow> ActionTargetType \<Rightarrow> int option \<Rightarrow> (int \<times> digest) list
     \<Rightarrow> (error + pyret) \<times> effect list \<times> cache" where
  "notify_digest_loop c d target_type target_identifier [] = (Inr PyNone, [], c)"
| "notify_digest_loop c d target_type target_identifier ((uid, dg) # rest) =
     (case get_digest_metadata dg of
        (start, end, counts) \<Rightarrow>
          if length counts = 1 then
            (case max_by_timestamp (records_of_group dg (fst (hd counts))) of
               Inl e \<Rightarrow> (Inl e, [], c)
             | Inr record \<Rightarrow>
                 notify c d \<lparr>n_event = rec_event record, n_rules = rec_rules record\<rparr>
                   target_type target_identifier)
          else if counts = [] then (Inl StopIteration, [], c)
          else
            (case send_mail d (DigestMail uid dg) of
               (Inl e, effs) \<Rightarrow> (Inl e, effs, c)
             | (Inr _, effs) \<Rightarrow>
                 (case notify_digest_loop c d target_type target_identifier rest of
                    (res, effs', c') \<Rightarrow> (res, effs @ effs', c'))))"

text \<open>
  \<^verbatim>\<open>
  def notify_digest(self, project, digest, target_type, target_identifier=None):
      user_ids = self.get_send_to(project, target_type, target_identifier)
      for user_id, digest in get_personalized_digests(
              target_type, project.id, digest, user_ids):
          ...
  \<close>
\<close>

definition notify_digest ::
  "cache \<Rightarrow> db \<Rightarrow> Project \<Rightarrow> digest \<Rightarrow> ActionTargetType \<Rightarrow> int option
     \<Rightarrow> (error + pyret) \<times> effect list \<times> cache" where
  "notify_digest c d project dg target_type target_identifier =
     (case get_send_to c d (Some project) target_type target_identifier None of
        (user_ids, c') \<Rightarrow>
          notify_digest_loop c' d target_type target_identifier
            (db_get_personalized_digests d target_type (p_id project) dg user_ids))"

text \<open>
  \<^verbatim>\<open>
  def rule_notify(self, event, futures, target_type, target_identifier=None):
      rules = []
      for future in futures:
          rules.append(future.rule)
          if not future.kwargs:
              continue
          raise NotImplementedError(
              "The default behavior for notification de-duplication does not support args")
      project = event.group.project
      if digests.enabled(project):
          digest_key = unsplit_key(event.group.project, target_type, target_identifier)
          immediate_delivery = digests.add(
              digest_key, event_to_record(event, rules),
              increment_delay=get_digest_option("increment_delay"),
              maximum_delay=get_digest_option("maximum_delay"))
          if immediate_delivery:
              deliver_digest.delay(digest_key)
          else:
              log_event = "digested"
      else:
          notification = Notification(event=event, rules=rules)
          self.notify(notification, target_type, target_identifier)
  \<close>
\<close>

fun collect_rules :: "Future list \<Rightarrow> error + Rule list" where
  "collect_rules [] = Inr []"
| "collect_rules (future # rest) =
     (if future_kwargs future = [] then
        (case collect_rules rest of Inl e \<Rightarrow> Inl e | Inr rules \<Rightarrow> Inr (future_rule future # rules))
      else Inl NotImplementedError)"

definition rule_notify ::
  "cache \<Rightarrow> db \<Rightarrow> Event \<Rightarrow> Future list \<Rightarrow> ActionTargetType \<Rightarrow> int option
     \<Rightarrow> (error + pyret) \<times> effect list \<times> cache" where
  "rule_notify c d event futures target_type target_identifier =
     (case collect_rules futures of
        Inl e \<Rightarrow> (Inl e, [], c)
      | Inr rules \<Rightarrow>
          (let project = \<lparr>p_id = g_project (e_group event)\<rparr> in
           if db_digests_enabled d (p_id project) then
             (let digest_key = unsplit_key project target_type target_identifier;
                  record = event_to_record event rules;
                  immediate_delivery = db_digests_add d digest_key record
              in (Inr PyNone,
                  DigestsAdd digest_key record
                    (db_increment_delay d (p_id project)) (db_maximum_delay d (p_id project))
                  # (if immediate_delivery then [DeliverDigestDelay digest_key] else []),
                  c))
           else
             (case notify c d \<lparr>n_event = event, n_rules = rules\<rparr> target_type target_identifier of
                (Inl e, effs, c') \<Rightarrow> (Inl e, effs, c')
              | (Inr _, effs, c') \<Rightarrow> (Inr PyNone, effs, c'))))"


text \<open>
  An installation with nothing in it: no users, teams or settings, digests disabled, a
  transport that never raises, a personalizer that hands every recipient the whole
  digest, sets that iterate by increasing id. The examples below are built from it by
  setting fields.
\<close>

definition db0 :: db where
  "db0 = \<lparr>db_users = [], db_organizationmemberteam = [], db_projectteam = [],
          db_team_member_set = (\<lambda>_. []), db_project_member_set = (\<lambda>_. []),
          db_get_owners = (\<lambda>_ _. Everyone), db_get_notification_recipients = (\<lambda>_. []),
          db_issue_alert_settings = (\<lambda>_ _. None), db_digests_enabled = (\<lambda>_. False),
          db_increment_delay = (\<lambda>_. 0), db_maximum_delay = (\<lambda>_. 0),
          db_digests_add = (\<lambda>_ _. True),
          db_get_personalized_digests = (\<lambda>_ _ dg user_ids. map (\<lambda>u. (u, dg)) user_ids),
          db_send_raises = (\<lambda>_. False), db_iter_rank = (\<lambda>_ u. u)\<rparr>"

text \<open>
  Vocabulary for statements about deliveries: the single-notification mails for a list of
  recipients, the aggregate mails for a list of personalized digests, and the counts
  that \<open>get_digest_metadata\<close> returns.
\<close>

definition error_mails :: "Notification \<Rightarrow> int list \<Rightarrow> effect list" where
  "error_mails n us = map (\<lambda>u. SendMail (ErrorMail u (n_event n) (n_rules n))) us"

definition digest_mails :: "(int \<times> digest) list \<Rightarrow> effect list" where
  "digest_mails pds = map (\<lambda>(u, dg). SendMail (DigestMail u dg)) pds"

definition counts_of :: "digest \<Rightarrow> (Group \<times> nat) list" where
  "counts_of dg = snd (snd (get_digest_metadata dg))"

section \<open>Properties of the subscription store\<close>

lemma create_cases:
  "create tbl row = Inl IntegrityError \<or> create tbl row = Inr (tbl @ [row])"
  by (simp add: create_def)

subsection \<open>subscribe\<close>

lemma subscribe_result: "fst (subscribe tbl g u r) = Inr PyNone"
  by (simp add: subscribe_def create_def)

lemma rows_for_ex: "list_ex (same_key \<lparr>project_id = p, group_id = g_id g, user_id = u_id u, is_active = a, reason = r\<rparr>) tbl \<longleftrightarrow> rows_for tbl g u \<noteq> []"
  by (force simp: list_ex_iff same_key_def rows_for_def filter_empty_conv)

lemma subscribe_table:
  "snd (subscribe tbl g u r) =
     (if rows_for tbl g u \<noteq> [] then tbl
      else tbl @ [\<lparr>project_id = g_project g, group_id = g_id g, user_id = u_id u, is_active = True, reason = r\<rparr>])"
  by (simp add: subscribe_def create_def rows_for_ex)

lemma rows_for_append: "rows_for (tbl @ rs) g u = rows_for tbl g u @ rows_for rs g u"
  by (simp add: rows_for_def)

lemma rows_for_unique: "unique_together tbl \<Longrightarrow> length (rows_for tbl g u) \<le> 1"
  unfolding unique_together_def rows_for_def
proof (induction tbl)
  case Nil then show ?case by simp
next
  case (Cons a tbl)
  then show ?case by (auto simp: filter_empty_conv  image_iff)
qed

lemma unique_together_snoc:
  "unique_together (tbl @ [row]) \<longleftrightarrow> unique_together tbl \<and> \<not> list_ex (same_key row) tbl"
  by (force simp: unique_together_def list_ex_iff same_key_def image_iff)

text \<open>
  Claim C6. \<open>subscribe\<close> is idempotent. It never hands an error to the caller: the
  duplicate-key error of the storage layer is swallowed. When a row for (issue, user)
  already exists, the call returns normally and leaves the table as it was. After one
  call, a second call (with any reason) returns normally and changes nothing; and on a
  table that satisfied the uniqueness constraint, the table after the calls holds
  exactly one row for that (issue, user) pair and still satisfies the constraint.
\<close>

theorem subscribe_idempotent:
  "fst (subscribe tbl g u r) = Inr PyNone \<and>
   (rows_for tbl g u \<noteq> [] \<longrightarrow> subscribe tbl g u r = (Inr PyNone, tbl)) \<and>
   (let tbl1 = snd (subscribe tbl g u r) in
      subscribe tbl1 g u r' = (Inr PyNone, tbl1) \<and>
      (unique_together tbl \<longrightarrow> length (rows_for tbl1 g u) = 1 \<and> unique_together tbl1))"
proof -
  let ?tbl1 = "snd (subscribe tbl g u r)"
  have a: "fst (subscribe tbl g u r) = Inr PyNone" by (rule subscribe_result)
  have b: "rows_for tbl g u \<noteq> [] \<longrightarrow> subscribe tbl g u r = (Inr PyNone, tbl)"
    using subscribe_result [of tbl g u r] subscribe_table [of tbl g u r]
    by (simp add: prod_eq_iff)
  have ne: "rows_for ?tbl1 g u \<noteq> []"
    by (simp add: subscribe_table rows_for_append) (simp add: rows_for_def)
  have c: "subscribe ?tbl1 g u r' = (Inr PyNone, ?tbl1)"
    using subscribe_result [of ?tbl1 g u r'] subscribe_table [of ?tbl1 g u r'] ne
    by (simp add: prod_eq_iff)
  have d: "length (rows_for ?tbl1 g u) = 1 \<and> unique_together ?tbl1" if u: "unique_together tbl"
  proof (cases "rows_for tbl g u = []")
    case True
    then show ?thesis using u
      by (simp add: subscribe_table rows_for_append unique_together_snoc rows_for_ex)
         (simp add: rows_for_def)
  next
    case False
    then have "length (rows_for tbl g u) \<noteq> 0" by simp
    with rows_for_unique [OF u, of g u] have "length (rows_for tbl g u) = 1" by linarith
    with False u show ?thesis by (simp add: subscribe_table)
  qed
  show ?thesis using a b c d by (simp add: Let_def)
qed

text \<open>
  The theorem at a table that already holds a (deactivated) row for the pair: the row
  is kept, nothing is added, nothing is raised.
\<close>

theorem subscribe_idempotent_witness:
  "(let tbl = [\<lparr>project_id = 2, group_id = 1, user_id = 3, is_active = False, reason = comment\<rparr>];
        g = \<lparr>g_id = 1, g_project = 2\<rparr>; u = \<lparr>u_id = 3, u_is_active = True\<rparr> in
      rows_for tbl g u \<noteq> [] \<and> unique_together tbl \<and> subscribe tbl g u unknown = (Inr PyNone, tbl) \<and>
      length (rows_for (snd (subscribe tbl g u unknown)) g u) = 1)"
  using subscribe_idempotent [of "[\<lparr>project_id = 2, group_id = 1, user_id = 3, is_active = False, reason = comment\<rparr>]"
       "\<lparr>g_id = 1, g_project = 2\<rparr>" "\<lparr>u_id = 3, u_is_active = True\<rparr>" unknown unknown]
  by (simp add: Let_def rows_for_def unique_together_def)

subsection \<open>bulk_subscribe\<close>

lemma env_at_0: "(case env of [] \<Rightarrow> [] | e # _ \<Rightarrow> e) = env_at env 0"
  by (cases env) (simp_all add: env_at_def)

lemma env_at_tl: "env_at (tl env) k = env_at env (Suc k)"
  by (cases env) (simp_all add: env_at_def)

lemma bulk_create_error: "bulk_create tbl rs = Inl e \<Longrightarrow> e = IntegrityError"
  by (induction rs arbitrary: tbl) (auto simp: create_def split: if_splits sum.splits)

lemma bulk_create_ok: "bulk_create tbl rs = Inr t \<Longrightarrow> t = tbl @ rs"
  by (induction rs arbitrary: tbl) (fastforce simp: create_def split: if_splits sum.splits)+

lemma loop_ConsE:
  assumes "bulk_subscribe_loop (i # is) env tbl g us r = (res, tbl', log)"
  obtains
    (ok) "\<not> conflict (first_pass i env tbl g us r)" "res = Inr PyTrue"
         "log = [first_pass i env tbl g us r]"
         "tbl' = concurrent_insert tbl (env_at env 0) @ subscriptions (first_pass i env tbl g us r)"
  | (raise) "conflict (first_pass i env tbl g us r)" "i = 0" "res = Inl IntegrityError"
         "log = [first_pass i env tbl g us r]" "tbl' = concurrent_insert tbl (env_at env 0)"
  | (retry) log1 where "conflict (first_pass i env tbl g us r)" "i \<noteq> 0"
         "bulk_subscribe_loop is (tl env) (concurrent_insert tbl (env_at env 0)) g us r = (res, tbl', log1)"
         "log = first_pass i env tbl g us r # log1"
proof (cases "bulk_create (concurrent_insert tbl (env_at env 0)) (new_subscriptions g us r (query_existing tbl g us))")
  case (Inr t)
  from bulk_create_ok [OF Inr] Inr assms show ?thesis
    by (intro ok) (auto simp: env_at_0 Let_def first_pass_def)
next
  case (Inl e)
  then have e: "e = IntegrityError" by (rule bulk_create_error)
  show ?thesis
  proof (cases "i = 0")
    case True
    with assms Inl e show ?thesis
      by (intro raise) (auto simp: env_at_0 Let_def first_pass_def)
  next
    case False
    obtain res1 tbl1 log1 where rec:
      "bulk_subscribe_loop is (tl env) (concurrent_insert tbl (env_at env 0)) g us r = (res1, tbl1, log1)"
      by (cases "bulk_subscribe_loop is (tl env) (concurrent_insert tbl (env_at env 0)) g us r") auto
    with assms Inl e False show ?thesis
      by (intro retry [of log1]) (auto simp: env_at_0 Let_def first_pass_def)
  qed
qed

lemma pass_ok_first: "pass_ok env g us r 0 (first_pass i env tbl g us r)"
  by (simp add: pass_ok_def first_pass_def)

lemma loop_length:
  "bulk_subscribe_loop is env tbl g us r = (res, tbl', log) \<Longrightarrow>
     length log \<le> length is \<and> (is \<noteq> [] \<longrightarrow> log \<noteq> []) \<and> map att_i log = take (length log) is"
proof (induction "is" arbitrary: env tbl log)
  case Nil then show ?case by simp
next
  case (Cons i "is")
  from Cons.prems show ?case
  proof (cases rule: loop_ConsE)
    case ok then show ?thesis by (simp add: first_pass_def)
  next
    case raise then show ?thesis by (simp add: first_pass_def)
  next
    case (retry log1)
    with Cons.IH [OF retry(3)] show ?thesis by (simp add: first_pass_def)
  qed
qed

lemma loop_passes:
  "bulk_subscribe_loop is env tbl g us r = (res, tbl', log) \<Longrightarrow> k < length log \<Longrightarrow>
     pass_ok env g us r k (log ! k)"
proof (induction "is" arbitrary: env tbl log k)
  case Nil then show ?case by simp
next
  case (Cons i "is")
  from Cons.prems(1) show ?case
  proof (cases rule: loop_ConsE)
    case ok with Cons.prems(2) show ?thesis by (simp add: pass_ok_first)
  next
    case raise with Cons.prems(2) show ?thesis by (simp add: pass_ok_first)
  next
    case (retry log1)
    show ?thesis
    proof (cases k)
      case 0 with retry show ?thesis by (simp add: pass_ok_first)
    next
      case (Suc j)
      with Cons.prems(2) retry have "j < length log1" by simp
      from Cons.IH [OF retry(3) this] Suc retry show ?thesis
        by (simp add: pass_ok_def env_at_tl)
    qed
  qed
qed

lemma loop_tables:
  "bulk_subscribe_loop is env tbl g us r = (res, tbl', log) \<Longrightarrow>
     (log \<noteq> [] \<longrightarrow> att_table (hd log) = tbl) \<and>
     (\<forall>k. Suc k < length log \<longrightarrow>
        att_table (log ! Suc k) = concurrent_insert (att_table (log ! k)) (env_at env k) \<and>
        conflict (log ! k) \<and> att_i (log ! k) \<noteq> 0)"
proof (induction "is" arbitrary: env tbl log)
  case Nil then show ?case by simp
next
  case (Cons i "is")
  from Cons.prems(1) show ?case
  proof (cases rule: loop_ConsE)
    case ok then show ?thesis by (simp add: first_pass_def)
  next
    case raise then show ?thesis by (simp add: first_pass_def)
  next
    case (retry log1)
    note IH = Cons.IH [OF retry(3)]
    have hd: "att_table (hd log) = tbl" using retry by (simp add: first_pass_def)
    have step: "att_table (log ! Suc k) = concurrent_insert (att_table (log ! k)) (env_at env k) \<and>
        conflict (log ! k) \<and> att_i (log ! k) \<noteq> 0" if "Suc k < length log" for k
    proof (cases k)
      case 0
      with that retry IH show ?thesis
        by (cases log1) (simp_all add: first_pass_def)
    next
      case (Suc j)
      with that retry have "Suc j < length log1" by simp
      with IH Suc retry(4) show ?thesis by (simp add: env_at_tl)
    qed
    from hd step show ?thesis by blast
  qed
qed

lemma loop_result:
  "bulk_subscribe_loop is env tbl g us r = (res, tbl', log) \<Longrightarrow> log \<noteq> [] \<Longrightarrow>
     (res = Inr PyTrue \<and> \<not> conflict (last log) \<and>
        tbl' = concurrent_insert (att_table (last log)) (env_at env (length log - 1)) @ subscriptions (last log))
   \<or> (res = Inl IntegrityError \<and> conflict (last log) \<and> att_i (last log) = 0 \<and>
        tbl' = concurrent_insert (att_table (last log)) (env_at env (length log - 1)))
   \<or> (res = Inr PyNone \<and> conflict (last log) \<and> att_i (last log) \<noteq> 0 \<and> length log = length is)"
proof (induction "is" arbitrary: env tbl log)
  case Nil then show ?case by simp
next
  case (Cons i "is")
  from Cons.prems(1) show ?case
  proof (cases rule: loop_ConsE)
    case ok then show ?thesis by (simp add: first_pass_def)
  next
    case raise then show ?thesis by (simp add: first_pass_def)
  next
    case (retry log1)
    show ?thesis
    proof (cases "log1 = []")
      case True
      with retry(3) loop_length [OF retry(3)] have "is = []" by auto
      with retry True show ?thesis by (simp add: first_pass_def)
    next
      case False
      from Cons.IH [OF retry(3) False] False retry(4) show ?thesis
        by (simp add: env_at_tl)
    qed
  qed
qed


lemma new_subscriptions_ids:
  "map user_id (new_subscriptions g us r ex) = filter (\<lambda>u. u \<notin> set ex) us"
  by (simp add: new_subscriptions_def comp_def)

lemma range_nth: "k < 5 \<Longrightarrow> ([4, 3, 2, 1, 0] ! k = (0::int)) = (k = 4)"
proof -
  assume "k < 5"
  then consider "k = 0" | "k = 1" | "k = 2" | "k = 3" | "k = 4" by linarith
  then show ?thesis by cases simp_all
qed

lemma set_iteration_set: "set (set_iteration env user_ids) = set user_ids"
  by (simp add: set_iteration_def)

lemma set_iteration_distinct: "distinct (set_iteration env user_ids)"
  by (simp add: set_iteration_def)

lemma set_query_existing:
  "set (query_existing tbl g us) =
     {u \<in> set us. \<exists>row\<in>set tbl. user_id row = u \<and> group_id row = g_id g \<and>
                                     project_id row = g_project g}"
  by (auto simp: query_existing_def)

lemma new_subscriptions_rows:
  "row \<in> set (new_subscriptions g us r ex) \<Longrightarrow>
     row = \<lparr>project_id = g_project g, group_id = g_id g, user_id = user_id row,
            is_active = True, reason = r\<rparr>"
  by (auto simp: new_subscriptions_def)

lemma set_concurrent_insert: "set tbl \<subseteq> set (concurrent_insert tbl rows)"
proof (induction rows arbitrary: tbl)
  case Nil
  then show ?case by (simp add: concurrent_insert_def)
next
  case (Cons a rows)
  have "concurrent_insert tbl (a # rows) =
      concurrent_insert (case create tbl a of Inr t' \<Rightarrow> t' | Inl _ \<Rightarrow> tbl) rows"
    by (simp add: concurrent_insert_def)
  moreover have "set tbl \<subseteq> set (case create tbl a of Inr t' \<Rightarrow> t' | Inl _ \<Rightarrow> tbl)"
    by (auto simp: create_def)
  ultimately show ?case using Cons.IH by fastforce
qed

lemma bulk_subscribe_zero:
  assumes "bulk_subscribe env tbl g user_ids r = (res, tbl', log)" "k < length log"
  shows "att_i (log ! k) = 0 \<longleftrightarrow> k = 4"
proof -
  from assms(1) have loop:
    "bulk_subscribe_loop [4, 3, 2, 1, 0] (env_rows env) tbl g (set_iteration env user_ids) r
       = (res, tbl', log)"
    by (simp add: bulk_subscribe_def)
  from loop_length [OF loop] have len: "length log \<le> 5"
    and idx: "map att_i log = take (length log) [4, 3, 2, 1, 0]" by simp_all
  from assms(2) have "att_i (log ! k) = map att_i log ! k" by simp
  also have "\<dots> = [4, 3, 2, 1, 0] ! k" using assms(2) by (simp only: idx nth_take)
  finally show ?thesis using range_nth [of k] assms(2) len by simp
qed

lemma bulk_subscribe_not_none:
  assumes "bulk_subscribe env tbl g user_ids r = (res, tbl', log)"
  shows "res \<noteq> Inr PyNone"
proof
  assume none: "res = Inr PyNone"
  from assms have loop:
    "bulk_subscribe_loop [4, 3, 2, 1, 0] (env_rows env) tbl g (set_iteration env user_ids) r
       = (res, tbl', log)"
    by (simp add: bulk_subscribe_def)
  from loop_length [OF loop] have ne: "log \<noteq> []" by simp
  then have last: "last log = log ! (length log - 1)" and lt: "length log - 1 < length log"
    by (simp_all add: last_conv_nth)
  from loop_result [OF loop ne] none have "att_i (last log) \<noteq> 0" and "length log = 5" by auto
  with bulk_subscribe_zero [OF assms lt] last show False by simp
qed

lemma bulk_subscribe_outcome:
  "fst (bulk_subscribe env tbl g user_ids r) = Inl IntegrityError \<or>
   fst (bulk_subscribe env tbl g user_ids r) = Inr PyTrue"
proof -
  obtain res tbl' log where run: "bulk_subscribe env tbl g user_ids r = (res, tbl', log)"
    by (cases "bulk_subscribe env tbl g user_ids r") auto
  then have loop:
    "bulk_subscribe_loop [4, 3, 2, 1, 0] (env_rows env) tbl g (set_iteration env user_ids) r
       = (res, tbl', log)"
    by (simp add: bulk_subscribe_def)
  from loop_length [OF loop] have ne: "log \<noteq> []" by simp
  from loop_result [OF loop ne] bulk_subscribe_not_none [OF run] run show ?thesis by auto
qed

text \<open>
  Claim C2. Whatever the issue, the user ids, the rows concurrent writers commit
  meanwhile and the order in which the set of user ids iterates, a call of
  \<open>bulk_subscribe\<close> makes at least one and at most five insert attempts. The first
  attempt queries the table as the call found it; every attempt queries the table as it
  stands then (the table of the attempt before together with the rows committed since),
  gets the given user ids that have a row for the issue and its project, and hands
  \<open>bulk_create\<close> one new active row with the given reason for each of the given user
  ids that its own query did not return, and for no other. An attempt before the fifth
  whose insert is refused is followed by another attempt; an attempt whose insert goes
  through is the last one. Then the call returns \<open>True\<close>, the table is the one that
  insert met with the rows of the attempt added, and every given user id has a row for
  the issue. The call raises \<open>IntegrityError\<close> exactly when the fifth attempt is made
  and refused, and then none of its rows is in the table, which holds what the
  concurrent writers left. The call never ends any other way.
\<close>

theorem bulk_subscribe_retries:
  assumes run: "bulk_subscribe env tbl g user_ids r = (res, tbl', log)"
  shows "1 \<le> length log \<and> length log \<le> 5 \<and>
    att_table (hd log) = tbl \<and>
    (\<forall>k<length log.
       existing_subscriptions (log ! k) =
         query_existing (att_table (log ! k)) g (set_iteration env user_ids) \<and>
       set (existing_subscriptions (log ! k)) =
         {u \<in> set user_ids. \<exists>row\<in>set (att_table (log ! k)).
            user_id row = u \<and> group_id row = g_id g \<and> project_id row = g_project g} \<and>
       subscriptions (log ! k) =
         new_subscriptions g (set_iteration env user_ids) r (existing_subscriptions (log ! k)) \<and>
       distinct (map user_id (subscriptions (log ! k))) \<and>
       set (map user_id (subscriptions (log ! k))) =
         set user_ids - set (existing_subscriptions (log ! k)) \<and>
       (\<forall>row\<in>set (subscriptions (log ! k)).
          row = \<lparr>project_id = g_project g, group_id = g_id g, user_id = user_id row,
                 is_active = True, reason = r\<rparr>) \<and>
       conflict (log ! k) =
         isl (bulk_create (concurrent_insert (att_table (log ! k)) (env_at (env_rows env) k))
                (subscriptions (log ! k))) \<and>
       (Suc k < length log \<longrightarrow>
          att_table (log ! Suc k) =
            concurrent_insert (att_table (log ! k)) (env_at (env_rows env) k)) \<and>
       (conflict (log ! k) \<and> k < 4 \<longrightarrow> Suc k < length log) \<and>
       (\<not> conflict (log ! k) \<longrightarrow> Suc k = length log \<and> res = Inr PyTrue)) \<and>
    (res = Inl IntegrityError \<longleftrightarrow> length log = 5 \<and> conflict (log ! 4)) \<and>
    (res = Inl IntegrityError \<or> res = Inr PyTrue) \<and>
    (res = Inr PyTrue \<longrightarrow>
       tbl' = concurrent_insert (att_table (last log)) (env_at (env_rows env) (length log - 1))
              @ subscriptions (last log) \<and>
       (\<forall>u\<in>set user_ids. \<exists>row\<in>set tbl'. user_id row = u \<and> group_id row = g_id g)) \<and>
    (res = Inl IntegrityError \<longrightarrow>
       tbl' = concurrent_insert (att_table (last log)) (env_at (env_rows env) 4))"
proof -
  let ?us = "set_iteration env user_ids"
  let ?env = "env_rows env"
  from run have loop: "bulk_subscribe_loop [4, 3, 2, 1, 0] ?env tbl g ?us r = (res, tbl', log)"
    by (simp add: bulk_subscribe_def)
  from loop_length [OF loop] have len: "length log \<le> 5" and ne: "log \<noteq> []"
    and idx: "map att_i log = take (length log) [4, 3, 2, 1, 0]" by simp_all
  from ne have len1: "1 \<le> length log" by (cases log) simp_all
  have zero: "att_i (log ! k) = 0 \<longleftrightarrow> k = 4" if "k < length log" for k
    using bulk_subscribe_zero [OF run that] .
  from ne have last: "last log = log ! (length log - 1)" by (simp add: last_conv_nth)
  from ne have lt: "length log - 1 < length log" by (cases log) simp_all
  note res = loop_result [OF loop ne]
  note tabs = loop_tables [OF loop]
  note not_none = bulk_subscribe_not_none [OF run]
  have raised: "res = Inl IntegrityError \<longleftrightarrow> length log = 5 \<and> conflict (log ! 4)"
  proof
    assume "res = Inl IntegrityError"
    with res have "conflict (last log)" and "att_i (last log) = 0" by auto
    with zero [OF lt] last lt show "length log = 5 \<and> conflict (log ! 4)" by auto
  next
    assume a: "length log = 5 \<and> conflict (log ! 4)"
    with last have "conflict (last log)" and "att_i (last log) = 0"
      using zero [of 4] by simp_all
    with res not_none show "res = Inl IntegrityError" by auto
  qed
  have retry: "Suc k < length log" if "k < length log" "conflict (log ! k)" "k < 4" for k
  proof (rule ccontr)
    assume "\<not> Suc k < length log"
    with that(1) have k: "k = length log - 1" by simp
    with that(2) last res not_none have "att_i (log ! k) = 0" by auto
    with zero [OF that(1)] that(3) show False by simp
  qed
  have stop: "Suc k = length log \<and> res = Inr PyTrue" if "k < length log" "\<not> conflict (log ! k)" for k
  proof -
    from tabs that have "\<not> Suc k < length log" by blast
    with that(1) have k: "k = length log - 1" and sk: "Suc k = length log" by simp_all
    from k that(2) last res have "res = Inr PyTrue" by auto
    with sk show ?thesis by simp
  qed
  have pass: "existing_subscriptions (log ! k) = query_existing (att_table (log ! k)) g ?us \<and>
       set (existing_subscriptions (log ! k)) =
         {u \<in> set user_ids. \<exists>row\<in>set (att_table (log ! k)).
            user_id row = u \<and> group_id row = g_id g \<and> project_id row = g_project g} \<and>
       subscriptions (log ! k) = new_subscriptions g ?us r (existing_subscriptions (log ! k)) \<and>
       distinct (map user_id (subscriptions (log ! k))) \<and>
       set (map user_id (subscriptions (log ! k))) =
         set user_ids - set (existing_subscriptions (log ! k)) \<and>
       (\<forall>row\<in>set (subscriptions (log ! k)).
          row = \<lparr>project_id = g_project g, group_id = g_id g, user_id = user_id row,
                 is_active = True, reason = r\<rparr>) \<and>
       conflict (log ! k) =
         isl (bulk_create (concurrent_insert (att_table (log ! k)) (env_at ?env k)) (subscriptions (log ! k)))"
    if "k < length log" for k
  proof -
    from loop_passes [OF loop that]
    have ex: "existing_subscriptions (log ! k) = query_existing (att_table (log ! k)) g ?us"
      and subs: "subscriptions (log ! k) = new_subscriptions g ?us r (existing_subscriptions (log ! k))"
      and cf: "conflict (log ! k) =
         isl (bulk_create (concurrent_insert (att_table (log ! k)) (env_at ?env k)) (subscriptions (log ! k)))"
      by (simp_all add: pass_ok_def)
    have ids: "map user_id (subscriptions (log ! k)) =
        filter (\<lambda>u. u \<notin> set (existing_subscriptions (log ! k))) ?us"
      unfolding subs by (rule new_subscriptions_ids)
    have exset: "set (existing_subscriptions (log ! k)) =
         {u \<in> set user_ids. \<exists>row\<in>set (att_table (log ! k)).
            user_id row = u \<and> group_id row = g_id g \<and> project_id row = g_project g}"
      unfolding ex set_query_existing set_iteration_set ..
    have d: "distinct (map user_id (subscriptions (log ! k)))"
      unfolding ids using set_iteration_distinct [of env user_ids] by simp
    have st: "set (map user_id (subscriptions (log ! k))) =
         set user_ids - set (existing_subscriptions (log ! k))"
      unfolding ids using set_iteration_set [of env user_ids] by auto
    have rows: "\<forall>row\<in>set (subscriptions (log ! k)).
          row = \<lparr>project_id = g_project g, group_id = g_id g, user_id = user_id row,
                 is_active = True, reason = r\<rparr>"
      using new_subscriptions_rows [of _ g ?us r "existing_subscriptions (log ! k)"]
      unfolding subs [symmetric] by blast
    from ex exset subs d st rows cf show ?thesis by blast
  qed
  from tabs ne have hd: "att_table (hd log) = tbl" by simp
  from tabs have next_table: "att_table (log ! Suc k) = concurrent_insert (att_table (log ! k)) (env_at ?env k)"
    if "Suc k < length log" for k using that by blast
  from res not_none have outcome: "res = Inl IntegrityError \<or> res = Inr PyTrue" by auto
  have stored: "tbl' = concurrent_insert (att_table (last log)) (env_at ?env (length log - 1))
              @ subscriptions (last log) \<and>
       (\<forall>u\<in>set user_ids. \<exists>row\<in>set tbl'. user_id row = u \<and> group_id row = g_id g)"
    if ok: "res = Inr PyTrue"
  proof -
    from res ok have t: "tbl' = concurrent_insert (att_table (last log)) (env_at ?env (length log - 1))
              @ subscriptions (last log)" by auto
    from pass [OF lt, folded last]
    have pex: "set (existing_subscriptions (last log)) =
         {u \<in> set user_ids. \<exists>row\<in>set (att_table (last log)).
            user_id row = u \<and> group_id row = g_id g \<and> project_id row = g_project g}"
      and pst: "set (map user_id (subscriptions (last log))) =
         set user_ids - set (existing_subscriptions (last log))"
      and prow: "\<forall>row\<in>set (subscriptions (last log)).
          row = \<lparr>project_id = g_project g, group_id = g_id g, user_id = user_id row,
                 is_active = True, reason = r\<rparr>"
      by blast+
    have "\<exists>row\<in>set tbl'. user_id row = u \<and> group_id row = g_id g" if u: "u \<in> set user_ids" for u
    proof (cases "u \<in> set (existing_subscriptions (last log))")
      case True
      with pex obtain row where "row \<in> set (att_table (last log))" "user_id row = u" "group_id row = g_id g"
        by auto
      moreover have "set (att_table (last log)) \<subseteq> set tbl'"
        unfolding t using set_concurrent_insert [of "att_table (last log)"] by auto
      ultimately show ?thesis by blast
    next
      case False
      with u pst have "u \<in> set (map user_id (subscriptions (last log)))" by blast
      then obtain row where row: "row \<in> set (subscriptions (last log))" "user_id row = u" by auto
      with prow have "row = \<lparr>project_id = g_project g, group_id = g_id g, user_id = user_id row,
                 is_active = True, reason = r\<rparr>" by blast
      then have "group_id row = g_id g" by (metis GroupSubscription.select_convs(2))
      with row t show ?thesis by auto
    qed
    with t show ?thesis by blast
  qed
  have kept: "tbl' = concurrent_insert (att_table (last log)) (env_at ?env 4)"
    if "res = Inl IntegrityError"
  proof -
    from that raised have "length log - 1 = 4" by simp
    with res that show ?thesis by auto
  qed
  from len len1 hd pass next_table retry stop raised outcome stored kept show ?thesis
    by (intro conjI allI impI) blast+
qed

lemma bulk_subscribe_example_run:
  "bulk_subscribe
      \<lparr>env_rows = [[\<lparr>project_id = 2, group_id = 1, user_id = 8, is_active = True, reason = comment\<rparr>]],
       env_set_rank = (\<lambda>_ u. - u)\<rparr>
      [] \<lparr>g_id = 1, g_project = 2\<rparr> [7, 8, 7] unknown =
   (Inr PyTrue,
    [\<lparr>project_id = 2, group_id = 1, user_id = 8, is_active = True, reason = comment\<rparr>,
     \<lparr>project_id = 2, group_id = 1, user_id = 7, is_active = True, reason = unknown\<rparr>],
    [\<lparr>att_i = 4, att_table = [], existing_subscriptions = [],
      subscriptions =
        [\<lparr>project_id = 2, group_id = 1, user_id = 8, is_active = True, reason = unknown\<rparr>,
         \<lparr>project_id = 2, group_id = 1, user_id = 7, is_active = True, reason = unknown\<rparr>],
      conflict = True\<rparr>,
     \<lparr>att_i = 3,
      att_table = [\<lparr>project_id = 2, group_id = 1, user_id = 8, is_active = True, reason = comment\<rparr>],
      existing_subscriptions = [8],
      subscriptions = [\<lparr>project_id = 2, group_id = 1, user_id = 7, is_active = True, reason = unknown\<rparr>],
      conflict = False\<rparr>])"
  by (simp add: bulk_subscribe_def set_iteration_def query_existing_def new_subscriptions_def
        concurrent_insert_def create_def same_key_def Let_def)

text \<open>
  The theorem at a run where another writer subscribes user 8 between the first query
  and the first insert: the first attempt is refused and leaves nothing behind, the
  second one inserts user 7 only. The set iterates as 8, 7.
\<close>

theorem bulk_subscribe_retries_witness:
  "(let run = bulk_subscribe
        \<lparr>env_rows = [[\<lparr>project_id = 2, group_id = 1, user_id = 8, is_active = True, reason = comment\<rparr>]],
         env_set_rank = (\<lambda>_ u. - u)\<rparr>
        [] \<lparr>g_id = 1, g_project = 2\<rparr> [7, 8, 7] unknown;
        log = snd (snd run)
    in fst run = Inr PyTrue \<and> length log = 2 \<and> conflict (log ! 0) \<and> \<not> conflict (log ! 1) \<and>
       map user_id (subscriptions (log ! 0)) = [8, 7] \<and>
       existing_subscriptions (log ! 1) = [8] \<and>
       map user_id (subscriptions (log ! 1)) = [7] \<and>
       fst (snd run) =
         [\<lparr>project_id = 2, group_id = 1, user_id = 8, is_active = True, reason = comment\<rparr>,
          \<lparr>project_id = 2, group_id = 1, user_id = 7, is_active = True, reason = unknown\<rparr>])"
  using bulk_subscribe_retries [OF bulk_subscribe_example_run]
  by (simp add: bulk_subscribe_example_run Let_def)

subsection \<open>subscribe_actor\<close>

text \<open>
  Claim C9. \<open>subscribe_actor\<close> on a user is \<open>subscribe\<close> for that user; on a team it
  is \<open>bulk_subscribe\<close> over the user ids of the team's \<open>member_set\<close> (same outcome,
  same table); on an actor of any other kind it raises \<open>NotImplementedError\<close> to the
  caller and leaves the table alone. That error is raised for no user and no team.
\<close>

theorem subscribe_actor_dispatch:
  "subscribe_actor env tbl g (UserActor u) r = subscribe tbl g u r \<and>
   subscribe_actor env tbl g (TeamActor t) r =
     (fst (bulk_subscribe env tbl g (t_member_user_ids t) r),
      fst (snd (bulk_subscribe env tbl g (t_member_user_ids t) r))) \<and>
   subscribe_actor env tbl g OtherActor r = (Inl NotImplementedError, tbl) \<and>
   (fst (subscribe_actor env tbl g a r) = Inl NotImplementedError \<longleftrightarrow> a = OtherActor)"
proof -
  have team: "subscribe_actor env tbl g (TeamActor t) r =
     (fst (bulk_subscribe env tbl g (t_member_user_ids t) r),
      fst (snd (bulk_subscribe env tbl g (t_member_user_ids t) r)))" for t
    by (simp add: split_beta)
  have only: "fst (subscribe_actor env tbl g a r) = Inl NotImplementedError \<longleftrightarrow> a = OtherActor"
  proof (cases a)
    case (UserActor u')
    then show ?thesis by (simp add: subscribe_result)
  next
    case (TeamActor t')
    with bulk_subscribe_outcome [of env tbl g "t_member_user_ids t'" r] team [of t']
    show ?thesis by auto
  next
    case OtherActor
    then show ?thesis by simp
  qed
  from team only show ?thesis by simp
qed

section \<open>Properties of the participant resolver\<close>

lemma dict_of_rows:
  "fold (\<lambda>s m. m(user_id s \<mapsto> s)) xs m0 k =
     (case filter (\<lambda>s. user_id s = k) xs of [] \<Rightarrow> m0 k | r # rs \<Rightarrow> Some (last (r # rs)))"
proof (induction xs arbitrary: m0)
  case Nil then show ?case by simp
next
  case (Cons x xs)
  then show ?case by (auto split: list.splits)
qed

lemma dict_of_users:
  "fold (\<lambda>u m. if P u then m(u \<mapsto> v u) else m) users m0 k =
     (if k \<in> set users \<and> P k then Some (v k) else m0 k)"
  by (induction users arbitrary: m0) auto

lemma rows_for_single:
  assumes "unique_together tbl"
  shows "rows_for tbl g u = [] \<or> (\<exists>s. rows_for tbl g u = [s])"
proof -
  from rows_for_unique [OF assms, of g u] show ?thesis
    by (cases "rows_for tbl g u") (auto simp: Suc_le_eq)
qed

lemma subscriptions_of_member:
  "u \<in> set users \<Longrightarrow>
     filter (\<lambda>s. user_id s = u_id u)
       (filter (\<lambda>s. group_id s = g_id g \<and> user_id s \<in> set (map u_id users)) tbl) = rows_for tbl g u"
  unfolding rows_for_def filter_filter by (rule filter_cong) auto

text \<open>
  Claim C1. On a table that satisfies the uniqueness constraint, \<open>get_participants\<close>
  has an entry for a user exactly when the user is a member of the issue's project and
  either the user's subscription row for the issue is active and the resolved workflow
  setting is not \<open>NEVER\<close>, or the user has no subscription row for the issue and the
  resolved setting is \<open>ALWAYS\<close>. The entry is the reason of the subscription row when
  there is one, and \<open>implicit\<close> otherwise.
\<close>

theorem get_participants_policy:
  assumes "unique_together tbl"
  shows "get_participants tbl users ns g u =
     (if u \<in> set users \<and>
         (case rows_for tbl g u of
            [] \<Rightarrow> resolved_setting (ns u) = ALWAYS
          | s # _ \<Rightarrow> is_active s \<and> resolved_setting (ns u) \<noteq> NEVER)
      then Some (case rows_for tbl g u of [] \<Rightarrow> implicit | s # _ \<Rightarrow> reason s)
      else None)"
proof (cases "u \<in> set users")
  case False
  then show ?thesis by (simp add: get_participants_def Let_def dict_of_users)
next
  case True
  note sub = subscriptions_of_member [OF True, of g tbl]
  from rows_for_single [OF assms, of g u] show ?thesis
  proof
    assume "rows_for tbl g u = []"
    with True sub show ?thesis
      by (simp add: get_participants_def Let_def dict_of_users dict_of_rows should_be_participating_def)
  next
    assume "\<exists>s. rows_for tbl g u = [s]"
    then obtain s where "rows_for tbl g u = [s]" ..
    with True sub show ?thesis
      by (simp add: get_participants_def Let_def dict_of_users dict_of_rows should_be_participating_def)
  qed
qed


text \<open>
  The theorem on a project of five members: subscribed with setting never (left out),
  subscribed with nothing stored (kept, reason of the row), subscribed but deactivated
  (left out), not subscribed with setting always (kept, \<open>implicit\<close>), not subscribed
  with nothing stored (left out); and a user who is no member (left out).
\<close>

theorem get_participants_policy_witness:
  "(let g = \<lparr>g_id = 1, g_project = 2\<rparr>;
        tbl = [\<lparr>project_id = 2, group_id = 1, user_id = 10, is_active = True, reason = comment\<rparr>,
               \<lparr>project_id = 2, group_id = 1, user_id = 11, is_active = True, reason = bookmark\<rparr>,
               \<lparr>project_id = 2, group_id = 1, user_id = 12, is_active = False, reason = assigned\<rparr>,
               \<lparr>project_id = 2, group_id = 5, user_id = 14, is_active = True, reason = mentioned\<rparr>];
        member = (\<lambda>i. \<lparr>u_id = i, u_is_active = True\<rparr>);
        users = map member [10, 11, 12, 13, 14];
        ns = (\<lambda>u. if u_id u = 10 then Some [(PROJECT, NEVER), (DEFAULT_SCOPE, ALWAYS)]
                   else if u_id u = 12 then Some [(DEFAULT_SCOPE, ALWAYS)]
                   else if u_id u = 13 then Some [(ORGANIZATION, ALWAYS)]
                   else None)
    in unique_together tbl \<and>
       get_participants tbl users ns g (member 10) = None \<and>
       get_participants tbl users ns g (member 11) = Some bookmark \<and>
       get_participants tbl users ns g (member 12) = None \<and>
       get_participants tbl users ns g (member 13) = Some implicit \<and>
       get_participants tbl users ns g (member 14) = None \<and>
       get_participants tbl users ns g (member 15) = None)"
proof -
  have u: "unique_together
     [\<lparr>project_id = 2, group_id = 1, user_id = 10, is_active = True, reason = comment\<rparr>,
      \<lparr>project_id = 2, group_id = 1, user_id = 11, is_active = True, reason = bookmark\<rparr>,
      \<lparr>project_id = 2, group_id = 1, user_id = 12, is_active = False, reason = assigned\<rparr>,
      \<lparr>project_id = 2, group_id = 5, user_id = 14, is_active = True, reason = mentioned\<rparr>]"
    by (simp add: unique_together_def)
  show ?thesis
    unfolding Let_def
    by (simp add: u get_participants_policy [OF u] rows_for_def resolved_setting_def)
qed

section \<open>Properties of the mail adapter\<close>

subsection \<open>Direct member targets and should_notify\<close>

lemma in_project_team_iff:
  "in_project_team d project uid \<longleftrightarrow>
     (\<exists>t. (uid, t) \<in> set (db_organizationmemberteam d) \<and> (t, p_id project) \<in> set (db_projectteam d))"
  by (auto simp: in_project_team_def list_ex_iff)

lemma teams_exists_iff:
  "teams_exists d project \<longleftrightarrow> (\<exists>t. (t, p_id project) \<in> set (db_projectteam d))"
  by (auto simp: teams_exists_def list_ex_iff)

lemma member_query:
  "(case filter (\<lambda>u. u_id u = ti \<and> P) us of [] \<Rightarrow> [] | user # _ \<Rightarrow> [u_id user]) =
     (if (\<exists>u\<in>set us. u_id u = ti) \<and> P then [ti] else [])"
proof (cases "filter (\<lambda>u. u_id u = ti \<and> P) us")
  case Nil
  then show ?thesis by (auto simp: filter_empty_conv)
next
  case (Cons a as)
  then have "a \<in> set (filter (\<lambda>u. u_id u = ti \<and> P) us)" by simp
  then have "u_id a = ti" "P" "a \<in> set us" by auto
  with Cons show ?thesis by auto
qed

text \<open>
  Claim C8. Resolving a \<open>MEMBER\<close> target: without an identifier the result is empty;
  with one, it is the one-element set of that id when a user with the id exists and the
  user's organization membership is in a team of the project, and empty otherwise. The
  result does not depend on anybody's issue-alert settings or on the project's member
  list, which are all that \<open>disabled_users_from_project\<close> reads: no disabled-user
  filtering takes place. \<open>get_send_to\<close> returns the same set for a \<open>MEMBER\<close> target and
  leaves the cache alone.
\<close>

theorem get_send_to_member_result:
  "get_send_to_member d project None = [] \<and>
   get_send_to_member d project (Some ti) =
     (if (\<exists>u\<in>set (db_users d). u_id u = ti) \<and>
         (\<exists>t. (ti, t) \<in> set (db_organizationmemberteam d) \<and> (t, p_id project) \<in> set (db_projectteam d))
      then [ti] else []) \<and>
   get_send_to_member (d\<lparr>db_issue_alert_settings := st, db_project_member_set := ms\<rparr>) project target =
     get_send_to_member d project target \<and>
   get_send_to c d (Some project) MEMBER target event = (get_send_to_member d project target, c)"
proof -
  have some: "get_send_to_member d project (Some ti) =
     (if (\<exists>u\<in>set (db_users d). u_id u = ti) \<and> in_project_team d project ti then [ti] else [])" for d ti
  proof -
    have "filter (\<lambda>u. u_id u = ti \<and> in_project_team d project (u_id u)) (db_users d) =
          filter (\<lambda>u. u_id u = ti \<and> in_project_team d project ti) (db_users d)"
      by (rule filter_cong) auto
    then show ?thesis by (simp add: get_send_to_member_def member_query)
  qed
  have frame: "get_send_to_member (d\<lparr>db_issue_alert_settings := st, db_project_member_set := ms\<rparr>) project target =
     get_send_to_member d project target"
    by (cases target) (simp_all add: get_send_to_member_def in_project_team_def)
  have top: "get_send_to c d (Some project) MEMBER target event = (get_send_to_member d project target, c)"
  proof (cases target)
    case None
    then show ?thesis by (simp add: get_send_to_def get_send_to_member_def)
  next
    case (Some ti)
    show ?thesis
    proof (cases "teams_exists d project")
      case True
      then show ?thesis unfolding Some some by (simp add: get_send_to_def some)
    next
      case False
      then have "\<not> in_project_team d project ti"
        by (auto simp: teams_exists_iff in_project_team_iff)
      with False show ?thesis unfolding Some some by (simp add: get_send_to_def)
    qed
  qed
  show ?thesis using some [of d ti] frame top
    by (simp add: in_project_team_iff get_send_to_member_def)
qed

text \<open>
  User 7 has set issue alerts of project 2 to \<open>NEVER\<close> and is in the set of disabled
  users; targeted directly, user 7 is returned all the same. User 8 does not exist.
\<close>

theorem get_send_to_member_result_witness:
  "(let d = db0\<lparr>db_users := [\<lparr>u_id = 7, u_is_active = True\<rparr>],
                 db_organizationmemberteam := [(7, 3)], db_projectteam := [(3, 2)],
                 db_project_member_set := (\<lambda>_. [7]),
                 db_issue_alert_settings := (\<lambda>_ _. Some [(PROJECT, NEVER)])\<rparr>;
        project = \<lparr>p_id = 2\<rparr>
    in disabled_users_from_project d project = [7] \<and>
       get_send_to_member d project (Some 7) = [7] \<and>
       get_send_to_member d project (Some 8) = [] \<and>
       get_send_to Map.empty d (Some project) MEMBER (Some 7) None = ([7], Map.empty))"
  unfolding Let_def
  by (simp add: get_send_to_member_result db0_def disabled_users_from_project_def)

text \<open>
  Claim C10. \<open>should_notify\<close> returns \<open>True\<close> for a \<open>MEMBER\<close> target whatever the
  project's sendable users are; for the two other target types its value is truthy
  exactly when the project has at least one user eligible for notifications.
\<close>

theorem should_notify_result:
  "should_notify d MEMBER g = PyBool True \<and>
   truthy (should_notify d MEMBER g) \<and>
   truthy (should_notify d ISSUE_OWNERS g) = (get_sendable_user_objects d \<lparr>p_id = g_project g\<rparr> \<noteq> []) \<and>
   truthy (should_notify d TEAM g) = (get_sendable_user_objects d \<lparr>p_id = g_project g\<rparr> \<noteq> [])"
  by (simp add: should_notify_def)

subsection \<open>Issue owners\<close>

lemma set_set_minus: "set (set_minus xs ys) = set xs - set ys"
  by (auto simp: set_minus_def)

lemma distinct_set_minus: "distinct (set_minus xs ys)"
  by (simp add: set_minus_def)

lemma set_users_in_teams:
  "set (users_in_teams d ts) =
     {u_id u |u. u \<in> set (db_users d) \<and> u_is_active u \<and>
        (\<exists>t\<in>set ts. (u_id u, t) \<in> set (db_organizationmemberteam d))}"
  by (auto simp: users_in_teams_def list_ex_iff)

lemma set_disabled_users:
  "set (disabled_users_from_project d project) =
     {u_id u |u. u \<in> set (db_users d) \<and> u_id u \<in> set (db_project_member_set d (p_id project)) \<and>
        (\<exists>st. db_issue_alert_settings d (p_id project) u = Some st \<and> map_of st PROJECT = Some NEVER)}"
  by (auto simp: disabled_users_from_project_def Let_def split: option.splits)

lemma owner_type_not_user: "owner_type x \<noteq> UserType \<longleftrightarrow> owner_type x = TeamType"
  by (cases "owner_type x") simp_all

lemma get_send_to_owners_explicit:
  assumes "db_get_owners d (p_id project) (e_data event) = Owners os" "os \<noteq> []"
  shows "snd (get_send_to_owners c d event project) = c"
    and "distinct (fst (get_send_to_owners c d event project))"
    and "set (fst (get_send_to_owners c d event project)) =
         ({owner_id x |x. x \<in> set os \<and> owner_type x = UserType} \<union>
          {u_id u |u. u \<in> set (db_users d) \<and> u_is_active u \<and>
             (\<exists>x\<in>set os. owner_type x = TeamType \<and>
                (u_id u, owner_id x) \<in> set (db_organizationmemberteam d))})
         - set (disabled_users_from_project d project)"
proof -
  let ?direct = "map owner_id (filter (\<lambda>owner. owner_type owner = UserType) os)"
  let ?teams = "map owner_id (filter (\<lambda>owner. owner_type owner \<noteq> UserType) os)"
  let ?send_to = "if ?teams \<noteq> [] then ?direct @ users_in_teams d ?teams else ?direct"
  have run: "get_send_to_owners c d event project =
      (set_minus ?send_to (disabled_users_from_project d project), c)"
    using assms by (simp add: get_send_to_owners_def Let_def)
  show "snd (get_send_to_owners c d event project) = c" by (simp add: run)
  show "distinct (fst (get_send_to_owners c d event project))"
    unfolding run fst_conv by (rule distinct_set_minus)
  have teams: "set (users_in_teams d ?teams) =
      {u_id u |u. u \<in> set (db_users d) \<and> u_is_active u \<and>
             (\<exists>x\<in>set os. owner_type x = TeamType \<and>
                (u_id u, owner_id x) \<in> set (db_organizationmemberteam d))}"
    unfolding set_users_in_teams by (auto simp: owner_type_not_user)
  have empty: "set (users_in_teams d ?teams) = {}" if "?teams = []"
    using that by (simp add: users_in_teams_def list_ex_iff)
  have "set ?send_to = set ?direct \<union> set (users_in_teams d ?teams)"
    using empty by (cases "?teams = []") simp_all
  also have "set ?direct = {owner_id x |x. x \<in> set os \<and> owner_type x = UserType}" by auto
  finally show "set (fst (get_send_to_owners c d event project)) =
         ({owner_id x |x. x \<in> set os \<and> owner_type x = UserType} \<union>
          {u_id u |u. u \<in> set (db_users d) \<and> u_is_active u \<and>
             (\<exists>x\<in>set os. owner_type x = TeamType \<and>
                (u_id u, owner_id x) \<in> set (db_organizationmemberteam d))})
         - set (disabled_users_from_project d project)"
    unfolding run fst_conv set_set_minus teams by simp
qed

text \<open>
  Claim C4, as amended. Resolving an \<open>ISSUE_OWNERS\<close> target for an event: when the
  ownership evaluator answers \<open>Everyone\<close>, the result is that of
  \<open>get_send_to_all_in_project\<close> (the cached list of the project if there is one,
  else the ids of the sendable users); when it answers with an empty list of owners,
  the result is empty and the cache untouched; otherwise the result holds no
  duplicates and is the set of the owners that are users, together with the ids of the
  active users whose organization membership is in a team that is an owner, without
  the users that have disabled issue alerts for the project. Those are the users on
  the project's member list whose issue-alert setting at project scope is \<open>NEVER\<close>.
  For a project that has a team, \<open>get_send_to\<close> returns this very set.
\<close>

theorem get_send_to_owners_result:
  "(db_get_owners d (p_id project) (e_data event) = Everyone \<longrightarrow>
      get_send_to_owners c d event project = get_send_to_all_in_project c d project \<and>
      fst (get_send_to_all_in_project c d project) =
        (case c (p_id project) of
           Some cached \<Rightarrow> cached
         | None \<Rightarrow> map u_id (get_sendable_user_objects d project))) \<and>
   (db_get_owners d (p_id project) (e_data event) = Owners [] \<longrightarrow>
      get_send_to_owners c d event project = ([], c)) \<and>
   (\<forall>os. db_get_owners d (p_id project) (e_data event) = Owners os \<and> os \<noteq> [] \<longrightarrow>
      snd (get_send_to_owners c d event project) = c \<and>
      distinct (fst (get_send_to_owners c d event project)) \<and>
      set (fst (get_send_to_owners c d event project)) =
        ({owner_id x |x. x \<in> set os \<and> owner_type x = UserType} \<union>
         {u_id u |u. u \<in> set (db_users d) \<and> u_is_active u \<and>
            (\<exists>x\<in>set os. owner_type x = TeamType \<and>
               (u_id u, owner_id x) \<in> set (db_organizationmemberteam d))})
        - set (disabled_users_from_project d project)) \<and>
   set (disabled_users_from_project d project) =
     {u_id u |u. u \<in> set (db_users d) \<and> u_id u \<in> set (db_project_member_set d (p_id project)) \<and>
        (\<exists>st. db_issue_alert_settings d (p_id project) u = Some st \<and>
              map_of st PROJECT = Some NEVER)} \<and>
   (teams_exists d project \<longrightarrow>
      get_send_to c d (Some project) ISSUE_OWNERS target_identifier (Some event) =
        (remdups (fst (get_send_to_owners c d event project)),
         snd (get_send_to_owners c d event project)))"
proof -
  have everyone: "get_send_to_owners c d event project = get_send_to_all_in_project c d project"
    if "db_get_owners d (p_id project) (e_data event) = Everyone"
    using that by (simp add: get_send_to_owners_def)
  have fallback: "fst (get_send_to_all_in_project c d project) =
        (case c (p_id project) of
           Some cached \<Rightarrow> cached
         | None \<Rightarrow> map u_id (get_sendable_user_objects d project))"
    by (simp add: get_send_to_all_in_project_def Let_def split: option.split)
  have none: "get_send_to_owners c d event project = ([], c)"
    if "db_get_owners d (p_id project) (e_data event) = Owners []"
    using that by (simp add: get_send_to_owners_def)
  have top: "get_send_to c d (Some project) ISSUE_OWNERS target_identifier (Some event) =
        (remdups (fst (get_send_to_owners c d event project)),
         snd (get_send_to_owners c d event project))" if "teams_exists d project"
    using that by (simp add: get_send_to_def split_beta)
  from everyone fallback none top get_send_to_owners_explicit [of d project event _ c]
    set_disabled_users [of d project]
  show ?thesis by blast
qed


text \<open>
  A team that owns the issue has two members, of whom user 7 has been deactivated.
  Nobody has disabled anything. The claim as stated puts user 7 among the recipients;
  the query of the code asks for \<open>is_active=True\<close> and returns user 8 only.
\<close>

lemma owners_example_run:
  "get_send_to_owners Map.empty
     (db0\<lparr>db_users := [\<lparr>u_id = 7, u_is_active = False\<rparr>, \<lparr>u_id = 8, u_is_active = True\<rparr>],
          db_organizationmemberteam := [(7, 1), (8, 1)], db_projectteam := [(1, 2)],
          db_get_owners := (\<lambda>_ _. Owners [\<lparr>owner_id = 1, owner_type = TeamType\<rparr>])\<rparr>)
     \<lparr>event_id = 1, e_group = \<lparr>g_id = 1, g_project = 2\<rparr>, e_timestamp = 0, e_data = 0\<rparr>
     \<lparr>p_id = 2\<rparr> = ([8], Map.empty)"
  by (simp add: get_send_to_owners_def users_in_teams_def disabled_users_from_project_def
        set_minus_def db0_def Let_def)

theorem get_send_to_owners_counterexample:
  "(let d = db0\<lparr>db_users := [\<lparr>u_id = 7, u_is_active = False\<rparr>, \<lparr>u_id = 8, u_is_active = True\<rparr>],
                 db_organizationmemberteam := [(7, 1), (8, 1)], db_projectteam := [(1, 2)],
                 db_get_owners := (\<lambda>_ _. Owners [\<lparr>owner_id = 1, owner_type = TeamType\<rparr>])\<rparr>;
        event = \<lparr>event_id = 1, e_group = \<lparr>g_id = 1, g_project = 2\<rparr>, e_timestamp = 0, e_data = 0\<rparr>;
        project = \<lparr>p_id = 2\<rparr>;
        os = [\<lparr>owner_id = 1, owner_type = TeamType\<rparr>]
    in db_get_owners d (p_id project) (e_data event) = Owners os \<and>
       (7, 1) \<in> set (db_organizationmemberteam d) \<and>
       disabled_users_from_project d project = [] \<and>
       get_send_to_owners Map.empty d event project = ([8], Map.empty) \<and>
       set (fst (get_send_to_owners Map.empty d event project)) \<noteq>
         ({owner_id x |x. x \<in> set os \<and> owner_type x = UserType} \<union>
          {uid. \<exists>x\<in>set os. owner_type x = TeamType \<and>
                  (uid, owner_id x) \<in> set (db_organizationmemberteam d)})
         - set (disabled_users_from_project d project))"
proof -
  let ?d = "db0\<lparr>db_users := [\<lparr>u_id = 7, u_is_active = False\<rparr>, \<lparr>u_id = 8, u_is_active = True\<rparr>],
                 db_organizationmemberteam := [(7, 1), (8, 1)], db_projectteam := [(1, 2)],
                 db_get_owners := (\<lambda>_ _. Owners [\<lparr>owner_id = 1, owner_type = TeamType\<rparr>])\<rparr>"
  let ?os = "[\<lparr>owner_id = 1, owner_type = TeamType\<rparr>]"
  let ?claimed = "({owner_id x |x. x \<in> set ?os \<and> owner_type x = UserType} \<union>
          {uid. \<exists>x\<in>set ?os. owner_type x = TeamType \<and>
                  (uid, owner_id x) \<in> set (db_organizationmemberteam ?d)})
         - set (disabled_users_from_project ?d \<lparr>p_id = 2\<rparr>)"
  have dis: "disabled_users_from_project ?d \<lparr>p_id = 2\<rparr> = []"
    by (simp add: disabled_users_from_project_def db0_def)
  have own: "db_get_owners ?d 2 0 = Owners ?os" by simp
  have mem: "(7, 1) \<in> set (db_organizationmemberteam ?d)" by simp
  have "7 \<in> ?claimed" unfolding dis by simp
  moreover have "7 \<notin> set [8::int]" by simp
  ultimately have "set [8] \<noteq> ?claimed" by metis
  with dis own mem show ?thesis
    unfolding Let_def owners_example_run by simp
qed

text \<open>
  The theorem where user 5 owns the issue directly and team 1 owns it too: of the team's
  members, 7 is deactivated and 9 has disabled issue alerts, so the recipients are 5 and
  8. With no owners the result is empty; with \<open>Everyone\<close> it is the sendable users,
  which are then cached.
\<close>

theorem get_send_to_owners_result_witness:
  "(let d = db0\<lparr>db_users := map (\<lambda>i. \<lparr>u_id = i, u_is_active = i \<noteq> 7\<rparr>) [5, 7, 8, 9],
                 db_organizationmemberteam := [(7, 1), (8, 1), (9, 1)], db_projectteam := [(1, 2)],
                 db_project_member_set := (\<lambda>_. [5, 7, 8, 9]),
                 db_issue_alert_settings :=
                   (\<lambda>_ u. if u_id u = 9 then Some [(PROJECT, NEVER)] else None),
                 db_get_owners := (\<lambda>_ _. Owners [\<lparr>owner_id = 5, owner_type = UserType\<rparr>,
                                               \<lparr>owner_id = 1, owner_type = TeamType\<rparr>])\<rparr>;
        event = \<lparr>event_id = 1, e_group = \<lparr>g_id = 1, g_project = 2\<rparr>, e_timestamp = 0, e_data = 0\<rparr>;
        project = \<lparr>p_id = 2\<rparr>
    in teams_exists d project \<and>
       disabled_users_from_project d project = [9] \<and>
       get_send_to_owners Map.empty d event project = ([5, 8], Map.empty) \<and>
       get_send_to Map.empty d (Some project) ISSUE_OWNERS None (Some event) = ([5, 8], Map.empty) \<and>
       get_send_to_owners Map.empty (d\<lparr>db_get_owners := (\<lambda>_ _. Owners [])\<rparr>) event project
         = ([], Map.empty) \<and>
       get_send_to_owners Map.empty
           (d\<lparr>db_get_owners := (\<lambda>_ _. Everyone),
              db_get_notification_recipients := (\<lambda>_. [\<lparr>u_id = 5, u_is_active = True\<rparr>])\<rparr>)
           event project
         = ([5], [2 \<mapsto> [5]]))"
proof -
  let ?d = "db0\<lparr>db_users := map (\<lambda>i. \<lparr>u_id = i, u_is_active = i \<noteq> 7\<rparr>) [5, 7, 8, 9],
                 db_organizationmemberteam := [(7, 1), (8, 1), (9, 1)], db_projectteam := [(1, 2)],
                 db_project_member_set := (\<lambda>_. [5, 7, 8, 9]),
                 db_issue_alert_settings :=
                   (\<lambda>_ u. if u_id u = 9 then Some [(PROJECT, NEVER)] else None),
                 db_get_owners := (\<lambda>_ _. Owners [\<lparr>owner_id = 5, owner_type = UserType\<rparr>,
                                               \<lparr>owner_id = 1, owner_type = TeamType\<rparr>])\<rparr>"
  let ?e = "\<lparr>event_id = 1, e_group = \<lparr>g_id = 1, g_project = 2\<rparr>, e_timestamp = 0, e_data = 0\<rparr>"
  have run: "get_send_to_owners Map.empty ?d ?e \<lparr>p_id = 2\<rparr> = ([5, 8], Map.empty)"
    by (simp add: get_send_to_owners_def users_in_teams_def disabled_users_from_project_def
        set_minus_def db0_def Let_def)
  have t: "teams_exists ?d \<lparr>p_id = 2\<rparr>" by (simp add: teams_exists_def db0_def)
  from get_send_to_owners_result [of ?d "\<lparr>p_id = 2\<rparr>" ?e Map.empty None] t run
  have top: "get_send_to Map.empty ?d (Some \<lparr>p_id = 2\<rparr>) ISSUE_OWNERS None (Some ?e) = ([5, 8], Map.empty)"
    by simp
  show ?thesis
    unfolding Let_def
    using top t run
    by (simp add: get_send_to_owners_def disabled_users_from_project_def
        get_send_to_all_in_project_def get_sendable_user_objects_def db0_def Let_def)
qed

subsection \<open>The delivery loops\<close>

lemma set_iter_order: "set (iter_order d xs) = set xs"
  by (simp add: iter_order_def)

lemma notify_loop_ok:
  "\<forall>u\<in>set us. \<not> db_send_raises d (ErrorMail u (n_event n) (n_rules n)) \<Longrightarrow>
     notify_loop d n us = (Inr PyNone, error_mails n us)"
  by (induction us) (simp_all add: send_mail_def error_mails_def)

lemma notify_loop_raises:
  "\<forall>x\<in>set pre. \<not> db_send_raises d (ErrorMail x (n_event n) (n_rules n)) \<Longrightarrow>
   db_send_raises d (ErrorMail u (n_event n) (n_rules n)) \<Longrightarrow>
     notify_loop d n (pre @ u # post) = (Inl DeliveryError, error_mails n (pre @ [u]))"
  by (induction pre) (simp_all add: send_mail_def error_mails_def)

lemma notify_loop_stops:
  assumes "db_send_raises d (ErrorMail a (n_event n) (n_rules n))"
    and "db_send_raises d (ErrorMail b (n_event n) (n_rules n))" and "a \<noteq> b"
  shows "\<not> (SendMail (ErrorMail a (n_event n) (n_rules n)) \<in> set (snd (notify_loop d n us)) \<and>
           SendMail (ErrorMail b (n_event n) (n_rules n)) \<in> set (snd (notify_loop d n us)))"
proof (induction us)
  case Nil
  then show ?case by simp
next
  case (Cons x us)
  show ?case
  proof (cases "db_send_raises d (ErrorMail x (n_event n) (n_rules n))")
    case True
    with assms(3) show ?thesis by (auto simp: send_mail_def)
  next
    case False
    with assms have "x \<noteq> a" "x \<noteq> b" by auto
    with False Cons.IH show ?thesis by (auto simp: send_mail_def split_beta)
  qed
qed

lemma notify_effects:
  "fst (snd (notify c d n tt ti)) =
     snd (notify_loop d n (iter_order d
       (fst (get_send_to c d (Some \<lparr>p_id = g_project (e_group (n_event n))\<rparr>) tt ti
               (Some (n_event n))))))"
  by (simp add: notify_def Let_def split_beta)

lemma notify_digest_loop_raises:
  "\<forall>(x, dx)\<in>set pre. 1 < length (counts_of dx) \<and> \<not> db_send_raises d (DigestMail x dx) \<Longrightarrow>
   1 < length (counts_of dg) \<Longrightarrow> db_send_raises d (DigestMail u dg) \<Longrightarrow>
     notify_digest_loop c d tt ti (pre @ (u, dg) # post) =
       (Inl DeliveryError, digest_mails (pre @ [(u, dg)]), c)"
proof (induction pre)
  case Nil
  then have "snd (snd (get_digest_metadata dg)) \<noteq> []" "length (snd (snd (get_digest_metadata dg))) \<noteq> 1"
    by (auto simp: counts_of_def)
  with Nil show ?case
    by (simp add: send_mail_def digest_mails_def split_beta)
next
  case (Cons a pre)
  obtain x dx where a: "a = (x, dx)" by (cases a)
  from Cons.prems a have "1 < length (counts_of dx)" "\<not> db_send_raises d (DigestMail x dx)"
    by auto
  then have "snd (snd (get_digest_metadata dx)) \<noteq> []" "length (snd (snd (get_digest_metadata dx))) \<noteq> 1"
    "\<not> db_send_raises d (DigestMail x dx)"
    by (auto simp: counts_of_def)
  moreover from Cons have "notify_digest_loop c d tt ti (pre @ (u, dg) # post) =
       (Inl DeliveryError, digest_mails (pre @ [(u, dg)]), c)" by simp
  ultimately show ?case
    by (simp add: a send_mail_def digest_mails_def split_beta)
qed

lemma notify_digest_loop_ok:
  "\<forall>(x, dx)\<in>set pds. 1 < length (counts_of dx) \<and> \<not> db_send_raises d (DigestMail x dx) \<Longrightarrow>
     notify_digest_loop c d tt ti pds = (Inr PyNone, digest_mails pds, c)"
proof (induction pds)
  case Nil
  then show ?case by (simp add: digest_mails_def)
next
  case (Cons a pds)
  obtain x dx where a: "a = (x, dx)" by (cases a)
  from Cons.prems a have "1 < length (counts_of dx)" "\<not> db_send_raises d (DigestMail x dx)"
    by auto
  then have "snd (snd (get_digest_metadata dx)) \<noteq> []" "length (snd (snd (get_digest_metadata dx))) \<noteq> 1"
    "\<not> db_send_raises d (DigestMail x dx)"
    by (auto simp: counts_of_def)
  moreover from Cons have "notify_digest_loop c d tt ti pds = (Inr PyNone, digest_mails pds, c)"
    by simp
  ultimately show ?case
    by (simp add: a send_mail_def digest_mails_def split_beta)
qed

text \<open>
  Claim C7, as amended. Neither loop isolates a recipient. In \<open>notify\<close>, the resolved
  recipients are taken in the order in which their set iterates: when the transport
  raises for one of them, the call raises that error and has attempted the recipients
  that came before it and that one, none of those that come after it; when the
  transport raises for none of them, every resolved recipient has been attempted. In
  \<open>notify_digest\<close>, as long as the personalized digests hold two or more issues each,
  the same holds of the aggregate mails, in the order of the personalized digests: an
  error for one recipient ends the flush and the recipients after it are not attempted,
  and when nothing raises every personalized digest has been mailed.
\<close>

theorem delivery_error_aborts:
  "(get_send_to c d (Some \<lparr>p_id = g_project (e_group (n_event n))\<rparr>) tt ti (Some (n_event n))
       = (send_to, c') \<and>
    iter_order d send_to = pre @ u # post \<and>
    (\<forall>x\<in>set pre. \<not> db_send_raises d (ErrorMail x (n_event n) (n_rules n))) \<and>
    db_send_raises d (ErrorMail u (n_event n) (n_rules n)) \<longrightarrow>
      notify c d n tt ti = (Inl DeliveryError, error_mails n (pre @ [u]), c')) \<and>
   (get_send_to c d (Some \<lparr>p_id = g_project (e_group (n_event n))\<rparr>) tt ti (Some (n_event n))
       = (send_to, c') \<and>
    (\<forall>x\<in>set send_to. \<not> db_send_raises d (ErrorMail x (n_event n) (n_rules n))) \<longrightarrow>
      notify c d n tt ti = (Inr PyNone, error_mails n (iter_order d send_to), c') \<and>
      set (fst (snd (notify c d n tt ti))) =
        (\<lambda>x. SendMail (ErrorMail x (n_event n) (n_rules n))) ` set send_to) \<and>
   (get_send_to c d (Some project) tt ti None = (user_ids, c') \<and>
    db_get_personalized_digests d tt (p_id project) dg user_ids = pds @ (r, dr) # rest \<and>
    (\<forall>(x, dx)\<in>set pds. 1 < length (counts_of dx) \<and> \<not> db_send_raises d (DigestMail x dx)) \<and>
    1 < length (counts_of dr) \<and> db_send_raises d (DigestMail r dr) \<longrightarrow>
      notify_digest c d project dg tt ti = (Inl DeliveryError, digest_mails (pds @ [(r, dr)]), c')) \<and>
   (get_send_to c d (Some project) tt ti None = (user_ids, c') \<and>
    (\<forall>(x, dx)\<in>set (db_get_personalized_digests d tt (p_id project) dg user_ids).
        1 < length (counts_of dx) \<and> \<not> db_send_raises d (DigestMail x dx)) \<longrightarrow>
      notify_digest c d project dg tt ti =
        (Inr PyNone, digest_mails (db_get_personalized_digests d tt (p_id project) dg user_ids), c'))"
proof (intro conjI impI)
  assume "get_send_to c d (Some \<lparr>p_id = g_project (e_group (n_event n))\<rparr>) tt ti (Some (n_event n))
       = (send_to, c') \<and>
    iter_order d send_to = pre @ u # post \<and>
    (\<forall>x\<in>set pre. \<not> db_send_raises d (ErrorMail x (n_event n) (n_rules n))) \<and>
    db_send_raises d (ErrorMail u (n_event n) (n_rules n))"
  then show "notify c d n tt ti = (Inl DeliveryError, error_mails n (pre @ [u]), c')"
    by (simp add: notify_def Let_def notify_loop_raises)
next
  assume a: "get_send_to c d (Some \<lparr>p_id = g_project (e_group (n_event n))\<rparr>) tt ti (Some (n_event n))
       = (send_to, c') \<and>
    (\<forall>x\<in>set send_to. \<not> db_send_raises d (ErrorMail x (n_event n) (n_rules n)))"
  then have "\<forall>x\<in>set (iter_order d send_to). \<not> db_send_raises d (ErrorMail x (n_event n) (n_rules n))"
    by (simp add: set_iter_order)
  from notify_loop_ok [OF this] a
  show run: "notify c d n tt ti = (Inr PyNone, error_mails n (iter_order d send_to), c')"
    by (simp add: notify_def Let_def)
  show "set (fst (snd (notify c d n tt ti))) =
        (\<lambda>x. SendMail (ErrorMail x (n_event n) (n_rules n))) ` set send_to"
    unfolding run by (simp add: error_mails_def set_iter_order)
next
  assume "get_send_to c d (Some project) tt ti None = (user_ids, c') \<and>
    db_get_personalized_digests d tt (p_id project) dg user_ids = pds @ (r, dr) # rest \<and>
    (\<forall>(x, dx)\<in>set pds. 1 < length (counts_of dx) \<and> \<not> db_send_raises d (DigestMail x dx)) \<and>
    1 < length (counts_of dr) \<and> db_send_raises d (DigestMail r dr)"
  then show "notify_digest c d project dg tt ti = (Inl DeliveryError, digest_mails (pds @ [(r, dr)]), c')"
    by (simp add: notify_digest_def notify_digest_loop_raises)
next
  assume "get_send_to c d (Some project) tt ti None = (user_ids, c') \<and>
    (\<forall>(x, dx)\<in>set (db_get_personalized_digests d tt (p_id project) dg user_ids).
        1 < length (counts_of dx) \<and> \<not> db_send_raises d (DigestMail x dx))"
  then show "notify_digest c d project dg tt ti =
        (Inr PyNone, digest_mails (db_get_personalized_digests d tt (p_id project) dg user_ids), c')"
    by (simp add: notify_digest_def notify_digest_loop_ok)
qed

text \<open>
  A team of three is targeted; the transport raises for users 1 and 2 and would accept
  the mail for user 3. The claim as stated has a delivery attempted for each of the
  three. In whatever order the set of the three iterates, the call ends at the first
  of users 1 and 2 it meets, so the mails for users 1 and 2 are never both attempted;
  when the set iterates by increasing id, the call raises at user 1 and nothing is
  handed over for user 3 either.
\<close>

lemma notify_example_run:
  "notify Map.empty
     (db0\<lparr>db_projectteam := [(3, 2)], db_team_member_set := (\<lambda>_. [1, 2, 3]),
          db_send_raises := (\<lambda>m. case m of ErrorMail u _ _ \<Rightarrow> u = 1 \<or> u = 2
                                           | DigestMail u _ \<Rightarrow> u = 1 \<or> u = 2)\<rparr>)
     \<lparr>n_event = \<lparr>event_id = 1, e_group = \<lparr>g_id = 1, g_project = 2\<rparr>, e_timestamp = 0, e_data = 0\<rparr>,
      n_rules = [\<lparr>rule_id = 1\<rparr>]\<rparr>
     TEAM (Some 3) =
   (Inl DeliveryError,
    [SendMail (ErrorMail 1
       \<lparr>event_id = 1, e_group = \<lparr>g_id = 1, g_project = 2\<rparr>, e_timestamp = 0, e_data = 0\<rparr>
       [\<lparr>rule_id = 1\<rparr>])],
    Map.empty)"
  by (simp add: notify_def get_send_to_def get_send_to_team_def teams_exists_def set_minus_def
        disabled_users_from_project_def send_mail_def iter_order_def db0_def Let_def)

theorem delivery_error_counterexample:
  "(let d = db0\<lparr>db_projectteam := [(3, 2)], db_team_member_set := (\<lambda>_. [1, 2, 3]),
                 db_send_raises := (\<lambda>m. case m of ErrorMail u _ _ \<Rightarrow> u = 1 \<or> u = 2
                                                  | DigestMail u _ \<Rightarrow> u = 1 \<or> u = 2)\<rparr>;
        event = \<lparr>event_id = 1, e_group = \<lparr>g_id = 1, g_project = 2\<rparr>, e_timestamp = 0, e_data = 0\<rparr>;
        rules = [\<lparr>rule_id = 1\<rparr>];
        n = \<lparr>n_event = event, n_rules = rules\<rparr>
    in get_send_to Map.empty d (Some \<lparr>p_id = 2\<rparr>) TEAM (Some 3) (Some event) = ([1, 2, 3], Map.empty) \<and>
       \<not> db_send_raises d (ErrorMail 3 event rules) \<and>
       (\<forall>rank. \<not> (SendMail (ErrorMail 1 event rules)
                      \<in> set (fst (snd (notify Map.empty (d\<lparr>db_iter_rank := rank\<rparr>) n TEAM (Some 3)))) \<and>
                   SendMail (ErrorMail 2 event rules)
                      \<in> set (fst (snd (notify Map.empty (d\<lparr>db_iter_rank := rank\<rparr>) n TEAM (Some 3)))))) \<and>
       notify Map.empty d n TEAM (Some 3) =
         (Inl DeliveryError, [SendMail (ErrorMail 1 event rules)], Map.empty) \<and>
       SendMail (ErrorMail 3 event rules) \<notin> set (fst (snd (notify Map.empty d n TEAM (Some 3)))))"
proof -
  let ?d = "db0\<lparr>db_projectteam := [(3, 2)], db_team_member_set := (\<lambda>_. [1, 2, 3]),
                 db_send_raises := (\<lambda>m. case m of ErrorMail u _ _ \<Rightarrow> u = 1 \<or> u = 2
                                                  | DigestMail u _ \<Rightarrow> u = 1 \<or> u = 2)\<rparr>"
  let ?event = "\<lparr>event_id = 1, e_group = \<lparr>g_id = 1, g_project = 2\<rparr>, e_timestamp = 0, e_data = 0\<rparr>"
  let ?n = "\<lparr>n_event = ?event, n_rules = [\<lparr>rule_id = 1\<rparr>]\<rparr>"
  have any: "\<not> (SendMail (ErrorMail 1 ?event [\<lparr>rule_id = 1\<rparr>])
                      \<in> set (fst (snd (notify Map.empty (?d\<lparr>db_iter_rank := rank\<rparr>) ?n TEAM (Some 3)))) \<and>
                   SendMail (ErrorMail 2 ?event [\<lparr>rule_id = 1\<rparr>])
                      \<in> set (fst (snd (notify Map.empty (?d\<lparr>db_iter_rank := rank\<rparr>) ?n TEAM (Some 3)))))"
    for rank
    using notify_loop_stops [of "?d\<lparr>db_iter_rank := rank\<rparr>" 1 ?n 2]
    unfolding notify_effects by simp
  have send_to: "get_send_to Map.empty ?d (Some \<lparr>p_id = 2\<rparr>) TEAM (Some 3) (Some ?event)
      = ([1, 2, 3], Map.empty)"
    by (simp add: get_send_to_def get_send_to_team_def teams_exists_def set_minus_def
        disabled_users_from_project_def db0_def)
  from any send_to show ?thesis
    unfolding Let_def notify_example_run by simp
qed

lemma counts_example:
  "counts_of [(\<lparr>rule_id = 1\<rparr>,
       [(\<lparr>g_id = 1, g_project = 2\<rparr>,
           [\<lparr>rec_timestamp = 10,
              rec_event = \<lparr>event_id = 1, e_group = \<lparr>g_id = 1, g_project = 2\<rparr>, e_timestamp = 10, e_data = 1\<rparr>,
              rec_rules = [\<lparr>rule_id = 1\<rparr>]\<rparr>]),
        (\<lparr>g_id = 2, g_project = 2\<rparr>,
           [\<lparr>rec_timestamp = 20,
              rec_event = \<lparr>event_id = 2, e_group = \<lparr>g_id = 2, g_project = 2\<rparr>, e_timestamp = 20, e_data = 2\<rparr>,
              rec_rules = [\<lparr>rule_id = 1\<rparr>]\<rparr>])])]
   = [(\<lparr>g_id = 1, g_project = 2\<rparr>, 1), (\<lparr>g_id = 2, g_project = 2\<rparr>, 1)]"
  by (simp add: counts_of_def get_digest_metadata_def digest_records_def Let_def)

text \<open>
  The theorem on that team, with the set iterating 3, 2, 1: an immediate delivery that
  reaches user 3 and fails at user 2; one where nothing fails; a flush of a digest of
  two issues that fails at the second personalized digest; and one where nothing fails.
\<close>

theorem delivery_error_aborts_witness:
  "(let d = db0\<lparr>db_projectteam := [(3, 2)], db_team_member_set := (\<lambda>_. [1, 2, 3]),
                 db_iter_rank := (\<lambda>_ u. - u),
                 db_send_raises := (\<lambda>m. case m of ErrorMail u _ _ \<Rightarrow> u = 1 \<or> u = 2
                                                  | DigestMail u _ \<Rightarrow> u = 2)\<rparr>;
        quiet = d\<lparr>db_send_raises := (\<lambda>_. False)\<rparr>;
        event = \<lparr>event_id = 1, e_group = \<lparr>g_id = 1, g_project = 2\<rparr>, e_timestamp = 10, e_data = 1\<rparr>;
        event2 = \<lparr>event_id = 2, e_group = \<lparr>g_id = 2, g_project = 2\<rparr>, e_timestamp = 20, e_data = 2\<rparr>;
        rules = [\<lparr>rule_id = 1\<rparr>];
        n = \<lparr>n_event = event, n_rules = rules\<rparr>;
        dg = [(\<lparr>rule_id = 1\<rparr>,
               [(\<lparr>g_id = 1, g_project = 2\<rparr>,
                   [\<lparr>rec_timestamp = 10, rec_event = event, rec_rules = rules\<rparr>]),
                (\<lparr>g_id = 2, g_project = 2\<rparr>,
                   [\<lparr>rec_timestamp = 20, rec_event = event2, rec_rules = rules\<rparr>])])]
    in notify Map.empty d n TEAM (Some 3) = (Inl DeliveryError, error_mails n [3, 2], Map.empty) \<and>
       notify Map.empty quiet n TEAM (Some 3) = (Inr PyNone, error_mails n [3, 2, 1], Map.empty) \<and>
       notify_digest Map.empty d \<lparr>p_id = 2\<rparr> dg TEAM (Some 3) =
         (Inl DeliveryError, digest_mails [(1, dg), (2, dg)], Map.empty) \<and>
       notify_digest Map.empty quiet \<lparr>p_id = 2\<rparr> dg TEAM (Some 3) =
         (Inr PyNone, digest_mails [(1, dg), (2, dg), (3, dg)], Map.empty))"
proof -
  let ?d = "db0\<lparr>db_projectteam := [(3, 2)], db_team_member_set := (\<lambda>_. [1, 2, 3]),
                 db_iter_rank := (\<lambda>_ u. - u),
                 db_send_raises := (\<lambda>m. case m of ErrorMail u _ _ \<Rightarrow> u = 1 \<or> u = 2
                                                  | DigestMail u _ \<Rightarrow> u = 2)\<rparr>"
  let ?quiet = "?d\<lparr>db_send_raises := (\<lambda>_. False)\<rparr>"
  let ?event = "\<lparr>event_id = 1, e_group = \<lparr>g_id = 1, g_project = 2\<rparr>, e_timestamp = 10, e_data = 1\<rparr>"
  let ?event2 = "\<lparr>event_id = 2, e_group = \<lparr>g_id = 2, g_project = 2\<rparr>, e_timestamp = 20, e_data = 2\<rparr>"
  let ?rules = "[\<lparr>rule_id = 1\<rparr>]"
  let ?n = "\<lparr>n_event = ?event, n_rules = ?rules\<rparr>"
  let ?dg = "[(\<lparr>rule_id = 1\<rparr>,
               [(\<lparr>g_id = 1, g_project = 2\<rparr>,
                   [\<lparr>rec_timestamp = 10, rec_event = ?event, rec_rules = ?rules\<rparr>]),
                (\<lparr>g_id = 2, g_project = 2\<rparr>,
                   [\<lparr>rec_timestamp = 20, rec_event = ?event2, rec_rules = ?rules\<rparr>])])]"
  have send_to: "get_send_to Map.empty (d'\<lparr>db_projectteam := [(3, 2)],
        db_team_member_set := (\<lambda>_. [1, 2, 3]), db_iter_rank := (\<lambda>_ u. - u), db_send_raises := f\<rparr>)
      (Some \<lparr>p_id = 2\<rparr>) TEAM (Some 3) ev = ([1, 2, 3], Map.empty)"
    if "db_users d' = []" for d' f ev
    using that
    by (simp add: get_send_to_def get_send_to_team_def teams_exists_def set_minus_def
          disabled_users_from_project_def Let_def)
  have users0: "db_users db0 = []" by (simp add: db0_def)
  have order: "iter_order ?d [1, 2, 3] = [3] @ 2 # [1]" "iter_order ?quiet [1, 2, 3] = [3, 2, 1]"
    by (simp_all add: iter_order_def)
  have pd: "db_get_personalized_digests ?d TEAM 2 ?dg [1, 2, 3] = [(1, ?dg)] @ (2, ?dg) # [(3, ?dg)]"
    "db_get_personalized_digests ?quiet TEAM 2 ?dg [1, 2, 3] = [(1, ?dg), (2, ?dg), (3, ?dg)]"
    by (simp_all add: db0_def)
  have cnt: "1 < length (counts_of ?dg)"
    unfolding counts_example by simp
  have a: "notify Map.empty ?d ?n TEAM (Some 3) = (Inl DeliveryError, error_mails ?n ([3] @ [2]), Map.empty)"
    using delivery_error_aborts [where c = Map.empty and d = ?d and n = ?n and tt = TEAM
        and ti = "Some 3" and send_to = "[1, 2, 3]" and pre = "[3]" and u = 2 and post = "[1]"
        and c' = Map.empty]
      send_to [OF users0, of _ "Some ?event"] order(1)
    by simp
  have b: "notify Map.empty ?quiet ?n TEAM (Some 3) =
         (Inr PyNone, error_mails ?n [3, 2, 1], Map.empty)"
    using delivery_error_aborts [where c = Map.empty and d = ?quiet
        and n = ?n and tt = TEAM and ti = "Some 3" and send_to = "[1, 2, 3]" and c' = Map.empty]
      send_to [OF users0, of _ "Some ?event"] order(2)
    by simp
  have c: "notify_digest Map.empty ?d \<lparr>p_id = 2\<rparr> ?dg TEAM (Some 3) =
         (Inl DeliveryError, digest_mails ([(1, ?dg)] @ [(2, ?dg)]), Map.empty)"
    using delivery_error_aborts [where c = Map.empty and d = ?d and tt = TEAM and ti = "Some 3"
        and project = "\<lparr>p_id = 2\<rparr>" and user_ids = "[1, 2, 3]" and c' = Map.empty and dg = ?dg
        and pds = "[(1, ?dg)]" and r = 2 and dr = ?dg and rest = "[(3, ?dg)]"]
      send_to [OF users0, of _ None] pd(1) cnt
    by simp
  have e: "notify_digest Map.empty ?quiet \<lparr>p_id = 2\<rparr> ?dg TEAM (Some 3) =
         (Inr PyNone, digest_mails [(1, ?dg), (2, ?dg), (3, ?dg)], Map.empty)"
    using delivery_error_aborts [where c = Map.empty and d = ?quiet and tt = TEAM and ti = "Some 3"
        and project = "\<lparr>p_id = 2\<rparr>" and user_ids = "[1, 2, 3]" and c' = Map.empty and dg = ?dg]
      send_to [OF users0, of _ None] pd(2) cnt
    by simp
  from a b c e show ?thesis by (simp add: Let_def)
qed

subsection \<open>rule_notify\<close>

lemma collect_rules_ok:
  "\<forall>f\<in>set futures. future_kwargs f = [] \<Longrightarrow> collect_rules futures = Inr (map future_rule futures)"
  by (induction futures) simp_all

lemma collect_rules_raises:
  "\<exists>f\<in>set futures. future_kwargs f \<noteq> [] \<Longrightarrow> collect_rules futures = Inl NotImplementedError"
  by (induction futures) (auto split: sum.splits)

lemma notify_loop_returns: "fst (notify_loop d n us) \<noteq> Inr PyTrue"
  by (induction us) (auto simp: send_mail_def split: prod.splits sum.splits)

lemma notify_returns: "fst (notify c d n tt ti) \<noteq> Inr PyTrue"
proof -
  obtain us c' where s: "get_send_to c d (Some \<lparr>p_id = g_project (e_group (n_event n))\<rparr>) tt ti
      (Some (n_event n)) = (us, c')"
    by (cases "get_send_to c d (Some \<lparr>p_id = g_project (e_group (n_event n))\<rparr>) tt ti
      (Some (n_event n))") auto
  with notify_loop_returns [of d n "iter_order d us"] show ?thesis
    by (simp add: notify_def Let_def split_beta)
qed

lemma distinct_iter_order: "distinct xs \<Longrightarrow> distinct (iter_order d xs)"
  by (simp add: iter_order_def)

lemma distinct_get_send_to:
  "distinct (fst (get_send_to c d project_opt tt ti event_opt))"
  by (auto simp: get_send_to_def split_beta split: option.splits)

text \<open>
  Claim C5, as amended. When no future of the matched rules carries keyword arguments:
  with digests enabled for the project, \<open>rule_notify\<close> appends the record of the event
  and its rules under the key made of the project id, the target type and the target
  identifier, passing the project's two delay options, queues the delivery of that key
  exactly when the append answers with immediate delivery, and does nothing else; with
  digests disabled, it is \<open>notify\<close> on the notification of the event and the rules,
  and when the transport raises for none of the resolved recipients, what it does is
  one single-notification mail for each resolved recipient, no recipient twice. When
  some future, whichever, carries keyword arguments, \<open>rule_notify\<close> raises
  \<open>NotImplementedError\<close>; nothing is appended, queued or mailed and the cache is as
  before.
\<close>

theorem rule_notify_dispatch:
  "((\<forall>f\<in>set futures. future_kwargs f = []) \<longrightarrow>
      (let project = \<lparr>p_id = g_project (e_group event)\<rparr>;
           rules = map future_rule futures;
           digest_key = DigestKey (p_id project) target_type target_identifier;
           record = \<lparr>rec_timestamp = e_timestamp event, rec_event = event, rec_rules = rules\<rparr>;
           n = \<lparr>n_event = event, n_rules = rules\<rparr>
       in (db_digests_enabled d (p_id project) \<longrightarrow>
             rule_notify c d event futures target_type target_identifier =
               (Inr PyNone,
                DigestsAdd digest_key record
                  (db_increment_delay d (p_id project)) (db_maximum_delay d (p_id project))
                # (if db_digests_add d digest_key record then [DeliverDigestDelay digest_key] else []),
                c)) \<and>
          (\<not> db_digests_enabled d (p_id project) \<longrightarrow>
             rule_notify c d event futures target_type target_identifier =
               notify c d n target_type target_identifier \<and>
             (\<forall>send_to c'.
                get_send_to c d (Some project) target_type target_identifier (Some event)
                  = (send_to, c') \<and>
                (\<forall>x\<in>set send_to. \<not> db_send_raises d (ErrorMail x event rules)) \<longrightarrow>
                rule_notify c d event futures target_type target_identifier =
                  (Inr PyNone, map (\<lambda>u. SendMail (ErrorMail u event rules)) (iter_order d send_to), c') \<and>
                distinct (iter_order d send_to) \<and> set (iter_order d send_to) = set send_to)))) \<and>
   ((\<exists>f\<in>set futures. future_kwargs f \<noteq> []) \<longrightarrow>
      rule_notify c d event futures target_type target_identifier = (Inl NotImplementedError, [], c))"
proof (intro conjI impI)
  assume "\<exists>f\<in>set futures. future_kwargs f \<noteq> []"
  from collect_rules_raises [OF this]
  show "rule_notify c d event futures target_type target_identifier = (Inl NotImplementedError, [], c)"
    by (simp add: rule_notify_def)
next
  assume kw: "\<forall>f\<in>set futures. future_kwargs f = []"
  let ?project = "\<lparr>p_id = g_project (e_group event)\<rparr>"
  let ?rules = "map future_rule futures"
  let ?n = "\<lparr>n_event = event, n_rules = ?rules\<rparr>"
  note rules = collect_rules_ok [OF kw]
  have on: "rule_notify c d event futures target_type target_identifier =
        (Inr PyNone,
         DigestsAdd (DigestKey (p_id ?project) target_type target_identifier)
           \<lparr>rec_timestamp = e_timestamp event, rec_event = event, rec_rules = ?rules\<rparr>
           (db_increment_delay d (p_id ?project)) (db_maximum_delay d (p_id ?project))
         # (if db_digests_add d (DigestKey (p_id ?project) target_type target_identifier)
                 \<lparr>rec_timestamp = e_timestamp event, rec_event = event, rec_rules = ?rules\<rparr>
            then [DeliverDigestDelay (DigestKey (p_id ?project) target_type target_identifier)] else []),
         c)"
    if "db_digests_enabled d (p_id ?project)"
    using that by (simp add: rule_notify_def rules Let_def unsplit_key_def event_to_record_def)
  have off: "rule_notify c d event futures target_type target_identifier =
       (case notify c d ?n target_type target_identifier of
          (Inl e, effs, c') \<Rightarrow> (Inl e, effs, c')
        | (Inr _, effs, c') \<Rightarrow> (Inr PyNone, effs, c'))"
    if "\<not> db_digests_enabled d (p_id ?project)"
    using that by (simp add: rule_notify_def rules Let_def)
  have off1: "rule_notify c d event futures target_type target_identifier =
                  notify c d ?n target_type target_identifier"
    if "\<not> db_digests_enabled d (p_id ?project)"
  proof -
    obtain res effs c' where run: "notify c d ?n target_type target_identifier = (res, effs, c')"
      by (cases "notify c d ?n target_type target_identifier") auto
    with notify_returns [of c d ?n target_type target_identifier] have "res \<noteq> Inr PyTrue" by simp
    then have "(case res of Inl e \<Rightarrow> Inl e | Inr _ \<Rightarrow> Inr PyNone) = res"
    proof (cases res)
      case (Inr b)
      with \<open>res \<noteq> Inr PyTrue\<close> show ?thesis by (cases b) simp_all
    qed simp
    then show ?thesis unfolding off [OF that] run by (cases res) simp_all
  qed
  have off2: "rule_notify c d event futures target_type target_identifier =
                (Inr PyNone, map (\<lambda>u. SendMail (ErrorMail u event ?rules)) (iter_order d send_to), c') \<and>
              distinct (iter_order d send_to) \<and> set (iter_order d send_to) = set send_to"
    if "\<not> db_digests_enabled d (p_id ?project)"
      "get_send_to c d (Some ?project) target_type target_identifier (Some event) = (send_to, c')"
      "\<forall>x\<in>set send_to. \<not> db_send_raises d (ErrorMail x event ?rules)" for send_to c'
  proof -
    from that(3) have "notify_loop d ?n (iter_order d send_to) = (Inr PyNone, error_mails ?n (iter_order d send_to))"
      by (intro notify_loop_ok) (simp add: set_iter_order)
    with that(2) have "notify c d ?n target_type target_identifier =
        (Inr PyNone, error_mails ?n (iter_order d send_to), c')"
      by (simp add: notify_def Let_def)
    then have "rule_notify c d event futures target_type target_identifier =
                (Inr PyNone, map (\<lambda>u. SendMail (ErrorMail u event ?rules)) (iter_order d send_to), c')"
      unfolding off [OF that(1)] by (simp add: error_mails_def)
    moreover from distinct_get_send_to [of c d "Some ?project" target_type target_identifier "Some event"]
      that(2) have "distinct send_to" by simp
    ultimately show ?thesis by (simp add: distinct_iter_order set_iter_order)
  qed
  from on off1 off2
  show "let project = \<lparr>p_id = g_project (e_group event)\<rparr>;
           rules = map future_rule futures;
           digest_key = DigestKey (p_id project) target_type target_identifier;
           record = \<lparr>rec_timestamp = e_timestamp event, rec_event = event, rec_rules = rules\<rparr>;
           n = \<lparr>n_event = event, n_rules = rules\<rparr>
       in (db_digests_enabled d (p_id project) \<longrightarrow>
             rule_notify c d event futures target_type target_identifier =
               (Inr PyNone,
                DigestsAdd digest_key record
                  (db_increment_delay d (p_id project)) (db_maximum_delay d (p_id project))
                # (if db_digests_add d digest_key record then [DeliverDigestDelay digest_key] else []),
                c)) \<and>
          (\<not> db_digests_enabled d (p_id project) \<longrightarrow>
             rule_notify c d event futures target_type target_identifier =
               notify c d n target_type target_identifier \<and>
             (\<forall>send_to c'.
                get_send_to c d (Some project) target_type target_identifier (Some event)
                  = (send_to, c') \<and>
                (\<forall>x\<in>set send_to. \<not> db_send_raises d (ErrorMail x event rules)) \<longrightarrow>
                rule_notify c d event futures target_type target_identifier =
                  (Inr PyNone, map (\<lambda>u. SendMail (ErrorMail u event rules)) (iter_order d send_to), c') \<and>
                distinct (iter_order d send_to) \<and> set (iter_order d send_to) = set send_to))"
    unfolding Let_def by blast
qed

text \<open>
  An event whose matched rule comes with keyword arguments: \<open>rule_notify\<close> raises
  \<open>NotImplementedError\<close> before it looks at the digest setting. Nothing is appended
  with digests enabled, and nothing is delivered with digests disabled; the same when
  the keyword arguments come with the second of two futures.
\<close>

theorem rule_notify_kwargs_counterexample:
  "(let d = db0\<lparr>db_digests_enabled := (\<lambda>_. True)\<rparr>;
        event = \<lparr>event_id = 1, e_group = \<lparr>g_id = 1, g_project = 2\<rparr>, e_timestamp = 10, e_data = 1\<rparr>;
        futures = [\<lparr>future_rule = \<lparr>rule_id = 1\<rparr>, future_kwargs = [(''key'', ''value'')]\<rparr>];
        futures2 = [\<lparr>future_rule = \<lparr>rule_id = 4\<rparr>, future_kwargs = []\<rparr>,
                    \<lparr>future_rule = \<lparr>rule_id = 1\<rparr>, future_kwargs = [(''key'', ''value'')]\<rparr>]
    in db_digests_enabled d 2 \<and>
       rule_notify Map.empty d event futures ISSUE_OWNERS None =
         (Inl NotImplementedError, [], Map.empty) \<and>
       rule_notify Map.empty db0 event futures ISSUE_OWNERS None =
         (Inl NotImplementedError, [], Map.empty) \<and>
       rule_notify Map.empty d event futures2 ISSUE_OWNERS None =
         (Inl NotImplementedError, [], Map.empty))"
  by (simp add: Let_def rule_notify_def db0_def)

text \<open>
  The theorem for an event with two matched rules and the member target 7: with digests
  enabled and an append that asks for immediate delivery; with an append that does not;
  with digests disabled; and with keyword arguments on the second of the two futures.
\<close>

theorem rule_notify_dispatch_witness:
  "(let event = \<lparr>event_id = 1, e_group = \<lparr>g_id = 1, g_project = 2\<rparr>, e_timestamp = 10, e_data = 1\<rparr>;
        futures = [\<lparr>future_rule = \<lparr>rule_id = 1\<rparr>, future_kwargs = []\<rparr>,
                   \<lparr>future_rule = \<lparr>rule_id = 4\<rparr>, future_kwargs = []\<rparr>];
        rules = [\<lparr>rule_id = 1\<rparr>, \<lparr>rule_id = 4\<rparr>];
        record = \<lparr>rec_timestamp = 10, rec_event = event, rec_rules = rules\<rparr>;
        d = db0\<lparr>db_users := [\<lparr>u_id = 7, u_is_active = True\<rparr>],
                 db_organizationmemberteam := [(7, 3)], db_projectteam := [(3, 2)],
                 db_increment_delay := (\<lambda>_. 60), db_maximum_delay := (\<lambda>_. 600)\<rparr>
    in rule_notify Map.empty (d\<lparr>db_digests_enabled := (\<lambda>_. True)\<rparr>) event futures MEMBER (Some 7) =
         (Inr PyNone,
          [DigestsAdd (DigestKey 2 MEMBER (Some 7)) record 60 600,
           DeliverDigestDelay (DigestKey 2 MEMBER (Some 7))],
          Map.empty) \<and>
       rule_notify Map.empty (d\<lparr>db_digests_enabled := (\<lambda>_. True), db_digests_add := (\<lambda>_ _. False)\<rparr>)
           event futures MEMBER (Some 7) =
         (Inr PyNone, [DigestsAdd (DigestKey 2 MEMBER (Some 7)) record 60 600], Map.empty) \<and>
       rule_notify Map.empty d event futures MEMBER (Some 7) =
         (Inr PyNone, [SendMail (ErrorMail 7 event rules)], Map.empty) \<and>
       rule_notify Map.empty d event
           [\<lparr>future_rule = \<lparr>rule_id = 1\<rparr>, future_kwargs = []\<rparr>,
            \<lparr>future_rule = \<lparr>rule_id = 4\<rparr>, future_kwargs = [(''key'', ''value'')]\<rparr>]
           MEMBER (Some 7) =
         (Inl NotImplementedError, [], Map.empty))"
proof -
  let ?event = "\<lparr>event_id = 1, e_group = \<lparr>g_id = 1, g_project = 2\<rparr>, e_timestamp = 10, e_data = 1\<rparr>"
  let ?futures = "[\<lparr>future_rule = \<lparr>rule_id = 1\<rparr>, future_kwargs = []\<rparr>,
                   \<lparr>future_rule = \<lparr>rule_id = 4\<rparr>, future_kwargs = []\<rparr>]"
  let ?futures2 = "[\<lparr>future_rule = \<lparr>rule_id = 1\<rparr>, future_kwargs = []\<rparr>,
            \<lparr>future_rule = \<lparr>rule_id = 4\<rparr>, future_kwargs = [(''key'', ''value'')]\<rparr>]"
  let ?d = "db0\<lparr>db_users := [\<lparr>u_id = 7, u_is_active = True\<rparr>],
                 db_organizationmemberteam := [(7, 3)], db_projectteam := [(3, 2)],
                 db_increment_delay := (\<lambda>_. 60), db_maximum_delay := (\<lambda>_. 600)\<rparr>"
  have kw: "\<forall>f\<in>set ?futures. future_kwargs f = []" by simp
  have kw2: "\<exists>f\<in>set ?futures2. future_kwargs f \<noteq> []" by simp
  have send_to: "get_send_to Map.empty ?d (Some \<lparr>p_id = 2\<rparr>) MEMBER (Some 7) (Some ?event) = ([7], Map.empty)"
    by (simp add: get_send_to_def get_send_to_member_def teams_exists_def in_project_team_def db0_def)
  have off: "\<not> db_digests_enabled ?d 2" and raises: "\<And>m. \<not> db_send_raises ?d m"
    and add: "\<And>k r. db_digests_add ?d k r" and order: "iter_order ?d [7] = [7]"
    by (simp_all add: db0_def iter_order_def)
  have a: "rule_notify Map.empty (?d\<lparr>db_digests_enabled := (\<lambda>_. True)\<rparr>) ?event ?futures MEMBER (Some 7) =
         (Inr PyNone,
          [DigestsAdd (DigestKey 2 MEMBER (Some 7))
             \<lparr>rec_timestamp = 10, rec_event = ?event, rec_rules = [\<lparr>rule_id = 1\<rparr>, \<lparr>rule_id = 4\<rparr>]\<rparr> 60 600,
           DeliverDigestDelay (DigestKey 2 MEMBER (Some 7))],
          Map.empty)"
    using rule_notify_dispatch [where futures = ?futures and event = ?event
          and d = "?d\<lparr>db_digests_enabled := (\<lambda>_. True)\<rparr>"
          and target_type = MEMBER and target_identifier = "Some 7" and c = Map.empty]
    by (simp add: Let_def db0_def)
  have b: "rule_notify Map.empty (?d\<lparr>db_digests_enabled := (\<lambda>_. True), db_digests_add := (\<lambda>_ _. False)\<rparr>)
           ?event ?futures MEMBER (Some 7) =
         (Inr PyNone,
          [DigestsAdd (DigestKey 2 MEMBER (Some 7))
             \<lparr>rec_timestamp = 10, rec_event = ?event, rec_rules = [\<lparr>rule_id = 1\<rparr>, \<lparr>rule_id = 4\<rparr>]\<rparr> 60 600],
          Map.empty)"
    using rule_notify_dispatch [where futures = ?futures and event = ?event
          and d = "?d\<lparr>db_digests_enabled := (\<lambda>_. True), db_digests_add := (\<lambda>_ _. False)\<rparr>"
          and target_type = MEMBER and target_identifier = "Some 7" and c = Map.empty]
    by (simp add: Let_def db0_def)
  have c: "rule_notify Map.empty ?d ?event ?futures MEMBER (Some 7) =
         (Inr PyNone, [SendMail (ErrorMail 7 ?event [\<lparr>rule_id = 1\<rparr>, \<lparr>rule_id = 4\<rparr>])], Map.empty)"
    using rule_notify_dispatch [where futures = ?futures and event = ?event and d = ?d
          and target_type = MEMBER and target_identifier = "Some 7" and c = Map.empty]
      off send_to raises order kw
    by (auto simp: Let_def)
  have e: "rule_notify Map.empty ?d ?event ?futures2 MEMBER (Some 7) =
         (Inl NotImplementedError, [], Map.empty)"
    using rule_notify_dispatch [where futures = ?futures2 and event = ?event and d = ?d
          and target_type = MEMBER and target_identifier = "Some 7" and c = Map.empty] kw2
    by blast
  from a b c e show ?thesis by (simp add: Let_def)
qed

subsection \<open>notify_digest\<close>

text \<open>
  Claim C3 says that a flush serves every recipient according to the recipient's own
  personalized digest: the single notification for a digest of one issue, the aggregate
  mail for a digest of two or more. The loop of \<open>notify_digest\<close> returns from inside
  its body at the first personalized digest of one issue. Here a digest holds one record
  for each of two issues; user 1 owns the first issue and user 2 owns both, so user 1's
  personalized digest holds one issue and user 2's holds two. The flush reaches user 1
  first, hands the record of the first issue to \<open>notify\<close>, which mails both owners of
  that event, and returns: user 2 gets no aggregate mail, and nobody gets a mail about
  the second issue.
\<close>

theorem notify_digest_early_return:
  "(let g1 = \<lparr>g_id = 1, g_project = 2\<rparr>; g2 = \<lparr>g_id = 2, g_project = 2\<rparr>;
        rules = [\<lparr>rule_id = 1\<rparr>];
        event1 = \<lparr>event_id = 1, e_group = g1, e_timestamp = 10, e_data = 1\<rparr>;
        event2 = \<lparr>event_id = 2, e_group = g2, e_timestamp = 20, e_data = 2\<rparr>;
        record1 = \<lparr>rec_timestamp = 10, rec_event = event1, rec_rules = rules\<rparr>;
        record2 = \<lparr>rec_timestamp = 20, rec_event = event2, rec_rules = rules\<rparr>;
        dg = [(\<lparr>rule_id = 1\<rparr>, [(g1, [record1]), (g2, [record2])])];
        dg1 = [(\<lparr>rule_id = 1\<rparr>, [(g1, [record1])])];
        user = (\<lambda>i. \<lparr>owner_id = i, owner_type = UserType\<rparr>);
        d = db0\<lparr>db_projectteam := [(9, 2)],
                 db_get_notification_recipients :=
                   (\<lambda>_. [\<lparr>u_id = 1, u_is_active = True\<rparr>, \<lparr>u_id = 2, u_is_active = True\<rparr>]),
                 db_get_owners := (\<lambda>_ data. if data = 1 then Owners [user 1, user 2]
                                            else Owners [user 2]),
                 db_get_personalized_digests := (\<lambda>_ _ _ _. [(1, dg1), (2, dg)])\<rparr>;
        run = notify_digest Map.empty d \<lparr>p_id = 2\<rparr> dg ISSUE_OWNERS None
    in get_send_to Map.empty d (Some \<lparr>p_id = 2\<rparr>) ISSUE_OWNERS None None = ([1, 2], [2 \<mapsto> [1, 2]]) \<and>
       map fst (counts_of dg1) = [g1] \<and>
       map fst (counts_of dg) = [g1, g2] \<and>
       run = (Inr PyNone,
              [SendMail (ErrorMail 1 event1 rules), SendMail (ErrorMail 2 event1 rules)],
              [2 \<mapsto> [1, 2]]) \<and>
       SendMail (DigestMail 2 dg) \<notin> set (fst (snd run)) \<and>
       SendMail (ErrorMail 2 event2 rules) \<notin> set (fst (snd run)))"
  by (simp add: Let_def notify_digest_def notify_def get_send_to_def get_send_to_owners_def
        get_send_to_all_in_project_def get_sendable_user_objects_def teams_exists_def
        disabled_users_from_project_def set_minus_def send_mail_def counts_of_def
        get_digest_metadata_def digest_records_def records_of_group_def iter_order_def db0_def)

end
